theory Spec2Isabelle
  imports Complex_Main "HOL-Library.AList" "HOL-Library.Char_ord" "HOL-Library.List_Lexorder" "HOL-Library.Multiset"
begin

section \<open>Collocation graphs (Dashboard.py, get\_nx\_collocation\_graph)\<close>

subsection \<open>Bigram tables\<close>

text \<open>
  A row of the bigrams dataframe. The columns \<^verbatim>\<open>x\<close> and \<^verbatim>\<open>y\<close> are the two words,
  \<^verbatim>\<open>f_xy\<close> the co-occurrence frequency and \<^verbatim>\<open>pmi\<close> the pointwise mutual information.
  The floating-point column \<^verbatim>\<open>pmi\<close> is only compared and copied, never computed with, so
  it is modelled by rationals (NaN does not occur in the model).
\<close>

record bigram =
  col_date :: string
  col_x :: string
  col_y :: string
  col_f_xy :: int
  col_pmi :: rat

text \<open>A row once the \<^verbatim>\<open>date\<close> column has been dropped.\<close>

record collocate =
  cx :: string
  cy :: string
  f_xy :: int
  pmi :: rat

text \<open>The \<^verbatim>\<open>type\<close> argument: the column \<^verbatim>\<open>'f_xy'\<close> or the column \<^verbatim>\<open>'pmi'\<close>.\<close>

datatype metric = F_xy | Pmi

definition metric_value :: "metric \<Rightarrow> collocate \<Rightarrow> rat" where
  "metric_value m r = (case m of F_xy \<Rightarrow> of_int (f_xy r) | Pmi \<Rightarrow> pmi r)"

text \<open>\<^verbatim>\<open>bigrams.drop(['date'], axis=1)\<close>\<close>

definition drop_date :: "bigram \<Rightarrow> collocate" where
  "drop_date b = \<lparr>cx = col_x b, cy = col_y b, f_xy = col_f_xy b, pmi = col_pmi b\<rparr>"

text \<open>\<^verbatim>\<open>drop_duplicates()\<close>: of equal rows the first occurrence is kept.\<close>

definition drop_duplicates :: "'a list \<Rightarrow> 'a list" where
  "drop_duplicates rows = rev (remdups (rev rows))"

text \<open>\<^verbatim>\<open>rename(columns={"x": "y", "y": "x"})\<close>\<close>

definition rename_xy :: "collocate \<Rightarrow> collocate" where
  "rename_xy r = r\<lparr>cx := cy r, cy := cx r\<rparr>"

text \<open>
  \<^verbatim>\<open>sort_values(['x', type], ascending=False)\<close>: descending in \<^verbatim>\<open>x\<close>, then descending
  in the metric; a sort on several columns is stable, so rows that agree on both keep
  their order.
\<close>

definition sorts_before :: "metric \<Rightarrow> collocate \<Rightarrow> collocate \<Rightarrow> bool" where
  "sorts_before m a b =
     (cx b < cx a \<or> (cx a = cx b \<and> metric_value m b \<le> metric_value m a))"

fun insort_desc :: "metric \<Rightarrow> collocate \<Rightarrow> collocate list \<Rightarrow> collocate list" where
  "insort_desc m a [] = [a]"
| "insort_desc m a (b # bs) =
     (if sorts_before m a b then a # b # bs else b # insort_desc m a bs)"

definition sort_values :: "metric \<Rightarrow> collocate list \<Rightarrow> collocate list" where
  "sort_values m rows = foldr (insort_desc m) rows []"

text \<open>
  \<^verbatim>\<open>groupby('x').head(top)\<close> keeps, in the order of the frame, the first \<^verbatim>\<open>top\<close> rows of
  every group; \<open>seen\<close> holds the group keys of the rows passed so far, so the number of
  occurrences of a key in it is the row's cumulative count in its group. For a negative
  \<^verbatim>\<open>top\<close> all rows but the last \<open>-top\<close> of every group are kept.
\<close>

fun head_rows :: "nat \<Rightarrow> string list \<Rightarrow> collocate list \<Rightarrow> collocate list" where
  "head_rows n seen [] = []"
| "head_rows n seen (r # rs) =
     (if count_list seen (cx r) < n then r # head_rows n (cx r # seen) rs
      else head_rows n (cx r # seen) rs)"

fun skip_rows :: "nat \<Rightarrow> string list \<Rightarrow> collocate list \<Rightarrow> collocate list" where
  "skip_rows n seen [] = []"
| "skip_rows n seen (r # rs) =
     (if count_list seen (cx r) < n then skip_rows n (cx r # seen) rs
      else r # skip_rows n (cx r # seen) rs)"

definition groupby_head :: "int \<Rightarrow> collocate list \<Rightarrow> collocate list" where
  "groupby_head n rows =
     (if 0 \<le> n then head_rows (nat n) [] rows
      else rev (skip_rows (nat (- n)) [] (rev rows)))"

subsection \<open>Undirected graphs\<close>

text \<open>
  A networkx \<^verbatim>\<open>Graph\<close>: the nodes in insertion order, and the edges with the value of
  their one attribute. An edge is stored once, whatever the order of its end points.
\<close>

record graph =
  g_nodes :: "string list"
  g_edges :: "(string \<times> string \<times> rat) list"

definition empty_graph :: graph where
  "empty_graph = \<lparr>g_nodes = [], g_edges = []\<rparr>"

definition add_node :: "graph \<Rightarrow> string \<Rightarrow> graph" where
  "add_node g w = (if w \<in> set (g_nodes g) then g else g\<lparr>g_nodes := g_nodes g @ [w]\<rparr>)"

definition joins :: "string \<Rightarrow> string \<Rightarrow> string \<times> string \<times> rat \<Rightarrow> bool" where
  "joins u v e = ((fst e = u \<and> fst (snd e) = v) \<or> (fst e = v \<and> fst (snd e) = u))"

text \<open>
  \<^verbatim>\<open>add_edge(u, v, **attr)\<close>: both end points become nodes; an edge that is already
  there has its attribute overwritten, otherwise the edge is new.
\<close>

definition add_edge :: "graph \<Rightarrow> string \<Rightarrow> string \<Rightarrow> rat \<Rightarrow> graph" where
  "add_edge g u v w =
     (let g' = add_node (add_node g u) v
      in if list_ex (joins u v) (g_edges g')
         then g'\<lparr>g_edges := map (\<lambda>e. if joins u v e then (fst e, fst (snd e), w) else e) (g_edges g')\<rparr>
         else g'\<lparr>g_edges := g_edges g' @ [(u, v, w)]\<rparr>)"

text \<open>\<^verbatim>\<open>nx.from_pandas_edgelist(df, 'x', 'y', edge_attr=[type])\<close>\<close>

definition from_pandas_edgelist :: "metric \<Rightarrow> collocate list \<Rightarrow> graph" where
  "from_pandas_edgelist m rows =
     foldl (\<lambda>g r. add_edge g (cx r) (cy r) (metric_value m r)) empty_graph rows"

text \<open>The degree of a node: the edges at it, a self-loop counted twice.\<close>

definition degree :: "graph \<Rightarrow> string \<Rightarrow> nat" where
  "degree g v =
     length (filter (\<lambda>e. fst e = v) (g_edges g)) + length (filter (\<lambda>e. fst (snd e) = v) (g_edges g))"

subsection \<open>The builder\<close>

text \<open>
  The two extracts of the table, combined and sorted: \<^verbatim>\<open>df_collocates\<close> before the
  truncation.
\<close>

definition sorted_collocates :: "bigram list \<Rightarrow> string list \<Rightarrow> metric \<Rightarrow> collocate list" where
  "sorted_collocates bigrams words m =
     (let df = drop_duplicates (map drop_date bigrams);
          x_collocates = filter (\<lambda>r. cx r \<in> set words) df;
          y_collocates = map rename_xy (filter (\<lambda>r. cy r \<in> set words) df)
      in sort_values m (x_collocates @ y_collocates))"

text \<open>\<^verbatim>\<open>df_collocates\<close> after the truncation to the topmost rows of every group.\<close>

definition df_collocates :: "bigram list \<Rightarrow> string list \<Rightarrow> metric \<Rightarrow> int \<Rightarrow> collocate list" where
  "df_collocates bigrams words m topn = groupby_head topn (sorted_collocates bigrams words m)"

definition get_nx_collocation_graph :: "bigram list \<Rightarrow> string list \<Rightarrow> metric \<Rightarrow> int \<Rightarrow> graph" where
  "get_nx_collocation_graph bigrams words m topn =
     (let rows = df_collocates bigrams words m topn
      in if rows = [] then foldl add_node empty_graph words
         else from_pandas_edgelist m rows)"

text \<open>
  An edge of the graph is contributed by the word \<open>w\<close> when a row with \<open>w\<close> in the
  source column \<^verbatim>\<open>x\<close> joins its end points.
\<close>

definition contributed :: "collocate list \<Rightarrow> string \<Rightarrow> string \<times> string \<times> rat \<Rightarrow> bool" where
  "contributed rows w e = list_ex (\<lambda>r. cx r = w \<and> joins (cx r) (cy r) e) rows"

text \<open>No two edges between the same two nodes.\<close>

definition simple_edges :: "(string \<times> string \<times> rat) list \<Rightarrow> bool" where
  "simple_edges es = (\<forall>u v. length (filter (joins u v) es) \<le> 1)"

section \<open>Taxonomies (Dashboard.py)\<close>

subsection \<open>Strings\<close>

text \<open>
  Characters are bytes. \<^verbatim>\<open>str.lower\<close> and \<^verbatim>\<open>str.casefold\<close> act on the ASCII letters, which
  is what the English taxonomies consist of; \<^verbatim>\<open>str.split()\<close> splits at runs of the ASCII
  white space characters and yields no empty word.
\<close>

definition lower_char :: "char \<Rightarrow> char" where
  "lower_char c = (if CHR ''A'' \<le> c \<and> c \<le> CHR ''Z'' then char_of (of_char c + (32::nat)) else c)"

definition lower :: "string \<Rightarrow> string" where
  "lower s = map lower_char s"

definition isspace :: "char \<Rightarrow> bool" where
  "isspace c = (c \<in> set [CHR 0x09, CHR 0x0A, CHR 0x0B, CHR 0x0C, CHR 0x0D,
                          CHR 0x1C, CHR 0x1D, CHR 0x1E, CHR 0x1F, CHR 0x20])"

fun split_from :: "string \<Rightarrow> string \<Rightarrow> string list" where
  "split_from cur [] = (if cur = [] then [] else [cur])"
| "split_from cur (c # cs) =
     (if isspace c then (if cur = [] then split_from [] cs else cur # split_from [] cs)
      else split_from (cur @ [c]) cs)"

definition split :: "string \<Rightarrow> string list" where
  "split s = split_from [] s"

text \<open>\<^verbatim>\<open>word.replace('*', '')\<close>\<close>

definition replace_asterisk :: "string \<Rightarrow> string" where
  "replace_asterisk s = filter (\<lambda>c. c \<noteq> CHR ''*'') s"

subsection \<open>Normalisation: tidy\_taxonomies\<close>

definition stopwords :: "string list" where
  "stopwords = [''and'', ''&'', ''or'']"

text \<open>
  \<^verbatim>\<open>str(uuid.uuid4())\<close> draws an identifier that has not been drawn before. The supply of
  identifiers is a counter that is threaded through the traversal: the identifier drawn
  is the value of the counter, which is then advanced.
\<close>

type_synonym uuid = nat

text \<open>
  A taxonomy entry as loaded from yaml: a dictionary in which each of the keys
  \<^verbatim>\<open>category\<close>, \<^verbatim>\<open>vocabulary\<close> and \<^verbatim>\<open>subcategories\<close> is present or absent.
\<close>

datatype raw_taxonomy =
  RawTaxonomy (raw_category: "string option") (raw_vocabulary: "string list option")
    (raw_subcategories: "raw_taxonomy list option")

text \<open>
  An entry after normalisation: names are paired with their identifier, the dictionary
  \<^verbatim>\<open>{'name': ..., 'uuid': ...}\<close>.
\<close>

datatype taxonomy =
  Taxonomy (tax_category: "(string \<times> uuid) option")
    (tax_vocabulary: "(string \<times> uuid) list option")
    (tax_subcategories: "taxonomy list option")

text \<open>The loop over the words of one vocabulary string.\<close>

fun tidy_words :: "string list \<Rightarrow> uuid \<Rightarrow> (string \<times> uuid) list \<times> uuid" where
  "tidy_words [] n = ([], n)"
| "tidy_words (word # ws) n =
     (let w = replace_asterisk (lower word)
      in if w \<in> set stopwords then tidy_words ws n
         else (let (vs, n') = tidy_words ws (Suc n) in ((w, n) # vs, n')))"

text \<open>The loop over the strings of \<^verbatim>\<open>value['vocabulary']\<close>.\<close>

fun tidy_vocabulary :: "string list \<Rightarrow> uuid \<Rightarrow> (string \<times> uuid) list \<times> uuid" where
  "tidy_vocabulary [] n = ([], n)"
| "tidy_vocabulary (s # ss) n =
     (let (vs, n1) = tidy_words (split s) n;
          (vs', n2) = tidy_vocabulary ss n1
      in (vs @ vs', n2))"

text \<open>
  \<^verbatim>\<open>tidy_taxonomies\<close> is decorated with \<^verbatim>\<open>@st.cache\<close>, so the name denotes the memoising
  wrapper, also in the recursive call for the subcategories. The wrapper looks its argument
  up among the arguments of the calls that have returned; when it is there the result stored
  for it is returned as it is, identifiers included, and when it is not there the function
  itself is run and its result is stored. The cache is the list of the arguments with their
  results, threaded through the traversal next to the supply of identifiers (the hour after
  which an entry expires is not modelled).
\<close>

type_synonym cache = "(raw_taxonomy list \<times> taxonomy list) list"

text \<open>
  The body of the loop over the entries (\<open>tidy_value\<close>), the loop (\<open>tidy_entries\<close>, the
  function as it is written) and the decorated function (\<open>tidy_taxonomies\<close>).
\<close>

fun tidy_value :: "raw_taxonomy \<Rightarrow> cache \<times> uuid \<Rightarrow> taxonomy \<times> cache \<times> uuid"
  and tidy_entries :: "raw_taxonomy list \<Rightarrow> cache \<times> uuid \<Rightarrow> taxonomy list \<times> cache \<times> uuid"
  and tidy_taxonomies :: "raw_taxonomy list \<Rightarrow> cache \<times> uuid \<Rightarrow> taxonomy list \<times> cache \<times> uuid" where
  "tidy_value (RawTaxonomy c v s) (cache, n) =
     (let (c', n1) = (case c of None \<Rightarrow> (None, n) | Some nm \<Rightarrow> (Some (lower nm, n), Suc n));
          (v', n2) = (case v of None \<Rightarrow> (None, n1)
                      | Some strings \<Rightarrow> (let (ws, k) = tidy_vocabulary strings n1 in (Some ws, k)));
          (s', st) = (case s of None \<Rightarrow> (None, (cache, n2))
                      | Some subs \<Rightarrow>
                          (let (ts, st') = tidy_taxonomies subs (cache, n2) in (Some ts, st')))
      in (Taxonomy c' v' s', st))"
| "tidy_entries [] st = ([], st)"
| "tidy_entries (value # data) st =
     (let (t, st1) = tidy_value value st;
          (ts, st2) = tidy_entries data st1
      in (t # ts, st2))"
| "tidy_taxonomies data (cache, n) =
     (case map_of cache data of
        Some processed \<Rightarrow> (processed, (cache, n))
      | None \<Rightarrow>
          (let (processed, (cache', n')) = tidy_entries data (cache, n)
           in (processed, ((data, processed) # cache', n'))))"

text \<open>
  The vocabulary tokens of a normalised taxonomy, and the identifiers it holds, in the
  order of the traversal: of every entry its category, its vocabulary and its
  subcategories.
\<close>

fun vocabulary_of :: "taxonomy \<Rightarrow> (string \<times> uuid) list"
  and vocabularies_of :: "taxonomy list \<Rightarrow> (string \<times> uuid) list" where
  "vocabulary_of (Taxonomy c v s) =
     (case v of None \<Rightarrow> [] | Some ws \<Rightarrow> ws) @ (case s of None \<Rightarrow> [] | Some ts \<Rightarrow> vocabularies_of ts)"
| "vocabularies_of [] = []"
| "vocabularies_of (t # ts) = vocabulary_of t @ vocabularies_of ts"

fun uuids_of :: "taxonomy \<Rightarrow> uuid list"
  and uuids_of_all :: "taxonomy list \<Rightarrow> uuid list" where
  "uuids_of (Taxonomy c v s) =
     (case c of None \<Rightarrow> [] | Some cat \<Rightarrow> [snd cat])
     @ (case v of None \<Rightarrow> [] | Some ws \<Rightarrow> map snd ws)
     @ (case s of None \<Rightarrow> [] | Some ts \<Rightarrow> uuids_of_all ts)"
| "uuids_of_all [] = []"
| "uuids_of_all (t # ts) = uuids_of t @ uuids_of_all ts"

text \<open>
  What normalisation leaves of a word: lower case, no asterisk, no stop-word, and no
  white space inside.
\<close>

definition tidy_token :: "string \<Rightarrow> bool" where
  "tidy_token w = (lower w = w \<and> CHR ''*'' \<notin> set w \<and> w \<notin> set stopwords \<and> \<not> list_ex isspace w)"

text \<open>A cache all of whose results have such tokens only.\<close>

definition tidy_cache :: "cache \<Rightarrow> bool" where
  "tidy_cache cache = list_all (\<lambda>entry. list_all tidy_token (map fst (vocabularies_of (snd entry)))) cache"

subsection \<open>Exceptions\<close>

datatype error = KeyError | NameError | ValueError | FileNotFoundError

subsection \<open>Directed graphs\<close>

text \<open>
  A networkx \<^verbatim>\<open>DiGraph\<close>: the nodes in insertion order, each with its attributes
  \<^verbatim>\<open>label\<close> and \<^verbatim>\<open>type\<close> when \<^verbatim>\<open>add_node\<close> has set them, and the edges. A node that
  only \<^verbatim>\<open>add_edge\<close> has created has no attributes.
\<close>

datatype node_type = Category_node | Vocabulary_node

record digraph =
  dg_nodes :: "(uuid \<times> (string \<times> node_type) option) list"
  dg_edges :: "(uuid \<times> uuid) list"

definition empty_digraph :: digraph where
  "empty_digraph = \<lparr>dg_nodes = [], dg_edges = []\<rparr>"

definition has_node :: "digraph \<Rightarrow> uuid \<Rightarrow> bool" where
  "has_node g u = (u \<in> set (map fst (dg_nodes g)))"

definition di_add_node :: "digraph \<Rightarrow> uuid \<Rightarrow> string \<Rightarrow> node_type \<Rightarrow> digraph" where
  "di_add_node g u label ty =
     (if has_node g u
      then g\<lparr>dg_nodes := map (\<lambda>n. if fst n = u then (u, Some (label, ty)) else n) (dg_nodes g)\<rparr>
      else g\<lparr>dg_nodes := dg_nodes g @ [(u, Some (label, ty))]\<rparr>)"

definition di_touch :: "digraph \<Rightarrow> uuid \<Rightarrow> digraph" where
  "di_touch g u = (if has_node g u then g else g\<lparr>dg_nodes := dg_nodes g @ [(u, None)]\<rparr>)"

definition di_add_edge :: "digraph \<Rightarrow> uuid \<Rightarrow> uuid \<Rightarrow> digraph" where
  "di_add_edge g u v =
     (let g' = di_touch (di_touch g u) v
      in if (u, v) \<in> set (dg_edges g') then g' else g'\<lparr>dg_edges := dg_edges g' @ [(u, v)]\<rparr>)"

subsection \<open>get\_nx\_taxonomies\_graph\<close>

text \<open>
  The loop over \<^verbatim>\<open>value['vocabulary']\<close>. The edge to the word starts at
  \<^verbatim>\<open>value['category']['uuid']\<close>, a \<^verbatim>\<open>KeyError\<close> when the entry has no category.
\<close>

fun add_vocabulary ::
  "digraph \<Rightarrow> (string \<times> uuid) option \<Rightarrow> (string \<times> uuid) list \<Rightarrow> error + digraph" where
  "add_vocabulary g c [] = Inr g"
| "add_vocabulary g c (word # ws) =
     (let g' = di_add_node g (snd word) (fst word) Vocabulary_node
      in case c of None \<Rightarrow> Inl KeyError
         | Some cat \<Rightarrow> add_vocabulary (di_add_edge g' (snd cat) (snd word)) c ws)"

text \<open>
  The body of the loop over the entries (\<open>visit_value\<close>), and the loop. The recursive call
  for the subcategories takes \<^verbatim>\<open>value['category']['uuid']\<close> as the parent, again a
  \<^verbatim>\<open>KeyError\<close> without a category.
\<close>

fun visit_value :: "taxonomy \<Rightarrow> digraph \<Rightarrow> uuid option \<Rightarrow> error + digraph"
  and get_nx_taxonomies_graph :: "taxonomy list \<Rightarrow> digraph \<Rightarrow> uuid option \<Rightarrow> error + digraph" where
  "visit_value (Taxonomy c v s) g parent =
     (let g1 = (case c of None \<Rightarrow> g
                | Some cat \<Rightarrow>
                    (let g' = di_add_node g (snd cat) (fst cat) Category_node
                     in case parent of None \<Rightarrow> g' | Some p \<Rightarrow> di_add_edge g' p (snd cat)))
      in case (case v of None \<Rightarrow> Inr g1 | Some ws \<Rightarrow> add_vocabulary g1 c ws) of
           Inl e \<Rightarrow> Inl e
         | Inr g2 \<Rightarrow>
             (case s of None \<Rightarrow> Inr g2
              | Some subs \<Rightarrow>
                  (case c of None \<Rightarrow> Inl KeyError
                   | Some cat \<Rightarrow> get_nx_taxonomies_graph subs g2 (Some (snd cat)))))"
| "get_nx_taxonomies_graph [] g parent = Inr g"
| "get_nx_taxonomies_graph (value # data) g parent =
     (case visit_value value g parent of
        Inl e \<Rightarrow> Inl e
      | Inr g' \<Rightarrow> get_nx_taxonomies_graph data g' parent)"

subsection \<open>get\_taxonomy\_vocabularies\<close>

text \<open>
  \<^verbatim>\<open>nx.descendants(graph, category)\<close>: a breadth-first search from the category; a node
  is marked when it enters the queue, and the source is not among its descendants.
\<close>

definition successors :: "(uuid \<times> uuid) list \<Rightarrow> uuid \<Rightarrow> uuid list" where
  "successors es u = map snd (filter (\<lambda>e. fst e = u) es)"

function bfs :: "(uuid \<times> uuid) list \<Rightarrow> uuid list \<Rightarrow> uuid list \<Rightarrow> uuid list" where
  "bfs es [] seen = seen"
| "bfs es (u # queue) seen =
     (let children = filter (\<lambda>v. v \<notin> set seen) (remdups (successors es u))
      in bfs es (queue @ children) (seen @ children))"
  by pat_completeness auto
termination
proof (relation "inv_image (less_than <*lex*> less_than)
    (\<lambda>(es, queue, seen). (card (snd ` set es - set seen), length queue))", goal_cases)
  case 1
  show ?case by (intro wf_inv_image wf_lex_prod wf_less_than)
next
  case (2 es u queue seen children)
  show ?case
  proof (cases "children = []")
    case True
    then show ?thesis by simp
  next
    case False
    then obtain c where c: "c \<in> set children" by (cases children) auto
    with 2 have "c \<in> snd ` set es - set seen"
      by (auto simp: successors_def)
    moreover have "snd ` set es - set (seen @ children) \<subseteq> snd ` set es - set seen - {c}"
      using c by auto
    ultimately have "card (snd ` set es - set (seen @ children)) < card (snd ` set es - set seen)"
      by (metis List.finite_set card_Diff1_less finite_Diff finite_imageI card_mono le_less_trans)
    then show ?thesis by simp
  qed
qed

definition descendants :: "(uuid \<times> uuid) list \<Rightarrow> uuid \<Rightarrow> uuid list" where
  "descendants es source = filter (\<lambda>v. v \<noteq> source) (bfs es [source] [source])"

text \<open>
  \<^verbatim>\<open>[y['label'] for x, y in nodes if y['type']=='vocabulary']\<close>; a node without attributes
  raises \<^verbatim>\<open>KeyError\<close>.
\<close>

fun vocabulary_labels :: "(uuid \<times> (string \<times> node_type) option) list \<Rightarrow> error + string list" where
  "vocabulary_labels [] = Inr []"
| "vocabulary_labels (n # ns) =
     (case snd n of None \<Rightarrow> Inl KeyError
      | Some y \<Rightarrow>
          (case vocabulary_labels ns of Inl e \<Rightarrow> Inl e
           | Inr labels \<Rightarrow> Inr (if snd y = Vocabulary_node then fst y # labels else labels)))"

definition casefold :: "string \<Rightarrow> string" where
  "casefold s = lower s"

definition subgraph_nodes :: "digraph \<Rightarrow> uuid list \<Rightarrow> (uuid \<times> (string \<times> node_type) option) list" where
  "subgraph_nodes g nodes = filter (\<lambda>n. fst n \<in> set nodes) (dg_nodes g)"

definition get_taxonomy_vocabularies :: "digraph \<Rightarrow> uuid option \<Rightarrow> error + string list" where
  "get_taxonomy_vocabularies g category =
     (case (case category of
              None \<Rightarrow> vocabulary_labels (dg_nodes g)
            | Some c \<Rightarrow>
                if has_node g c
                then vocabulary_labels (subgraph_nodes g (descendants (dg_edges g) c))
                else Inr [])
      of Inl e \<Rightarrow> Inl e
       | Inr vocabularies \<Rightarrow> Inr (sort_key casefold vocabularies))"


text \<open>
  What a node of the graph carries: whether \<^verbatim>\<open>add_node\<close> has given it its attributes, its
  label, and whether its type is \<^verbatim>\<open>'vocabulary'\<close>.
\<close>

definition has_attributes :: "uuid \<times> (string \<times> node_type) option \<Rightarrow> bool" where
  "has_attributes n = (snd n \<noteq> None)"

definition node_label :: "uuid \<times> (string \<times> node_type) option \<Rightarrow> string" where
  "node_label n = (case snd n of None \<Rightarrow> [] | Some y \<Rightarrow> fst y)"

definition is_vocabulary :: "uuid \<times> (string \<times> node_type) option \<Rightarrow> bool" where
  "is_vocabulary n = (case snd n of None \<Rightarrow> False | Some y \<Rightarrow> snd y = Vocabulary_node)"

section \<open>Loading tables (Dashboard.py, load\_dataframe)\<close>

subsection \<open>Names\<close>

text \<open>
  The values \<^verbatim>\<open>load_dataframe\<close> tells apart with \<^verbatim>\<open>isinstance\<close>: a string, a list (of
  paths), a dictionary (from subset keys to paths, in insertion order), and anything else.
\<close>

datatype pyobj = PyStr string | PyList "string list" | PyDict "(string \<times> string) list" | PyOther

text \<open>
  A name that no enclosing function binds is looked up in the globals of the module and then
  in the builtins. \<open>module_globals\<close> lists every name that Dashboard.py binds at module level
  (imports, function definitions and assignments, wherever in the script), after the names a
  module has from the start; \<open>builtins\<close> lists the names of the \<^verbatim>\<open>builtins\<close> module.
\<close>

definition module_globals :: "string list" where
  "module_globals =
     [
      ''__name__'', ''__doc__'', ''__package__'', ''__loader__'', ''__spec__'', ''__file__'',
      ''__builtins__'', ''st'', ''components'', ''pd'', ''alt'', ''plt'', ''nx'', ''yaml'',
      ''uuid'', ''perf_counter'', ''Network'', ''load_dataframe'', ''load_yaml'',
      ''tidy_taxonomies'', ''get_taxonomy_categories'', ''get_nx_taxonomies_graph'',
      ''get_taxonomy_vocabularies'', ''get_nx_collocation_graph'', ''get_matplotlib_network'',
      ''get_pyvis_network'', ''load_css'', ''data_load_state'', ''start'', ''df_unigrams'',
      ''df_bigrams'', ''df_timeline'', ''dict_taxonomies'', ''nx_taxonomies'',
      ''corpus_subset_options'', ''corpus_subset'', ''data_range_start'', ''data_range_end'',
      ''ngramChart'', ''ngramPointChart'', ''timelineChart'', ''ngramData'', ''ngramHelp'',
      ''collocChart'', ''collocation_type_options'', ''collocation_type'', ''collocData'',
      ''collocHelp'', ''date_start'', ''date_end'', ''unigrams'', ''bigrams'', ''timeline'',
      ''allwords'', ''defaultwords'', ''taxonomy_categories'', ''taxonomy_vocabularies'',
      ''selected_words_options'', ''explorer_option_expanded'', ''col1'', ''col2'',
      ''selected_words'', ''selected_taxonomy_category_options'',
      ''selected_taxonomy_category_index'', ''selected_taxonomy_category'',
      ''ngram_container'', ''ngram_chart_container'', ''colloc_container'', ''col3'',
      ''selected_collocation_words_options'', ''selected_collocation_words'',
      ''number_of_collocates'', ''cf_corpus_subset_options'', ''cf_corpus_subset_index'',
      ''cf_corpus_subset'', ''colloc_chart_container'', ''chart_width'',
      ''ngram_mark_opacity'', ''ngram_xscale_domain'', ''timeline_xscale_domain'',
      ''ngram_legend_selection'', ''selected_unigrams'', ''selected_timeline'', ''ngram_line'',
      ''ngram_circle'', ''ngram_chart'', ''timeline_point'', ''timeline_text'',
      ''timeline_chart'', ''ngram_bar'', ''compound_chart'', ''selected_timeline_sanitised'',
      ''visualisation_library'', ''words_to_collocate'', ''collocations'', ''cf_bigrams'',
      ''cf_collocations'', ''collocational_network'', ''cf_collocational_network'',
      ''pyvis_config'', ''pyvis_save_path'', ''st_iframe_height'', ''node_attributes'',
      ''attributes'', ''n'', ''collocational_network_html'', ''cf_collocational_network_html'',
      ''source_data'', ''cf_source_data'']"

definition builtins :: "string list" where
  "builtins =
     [
      ''ArithmeticError'', ''AssertionError'', ''AttributeError'', ''BaseException'',
      ''BaseExceptionGroup'', ''BlockingIOError'', ''BrokenPipeError'', ''BufferError'',
      ''BytesWarning'', ''ChildProcessError'', ''ConnectionAbortedError'', ''ConnectionError'',
      ''ConnectionRefusedError'', ''ConnectionResetError'', ''DeprecationWarning'',
      ''EOFError'', ''Ellipsis'', ''EncodingWarning'', ''EnvironmentError'', ''Exception'',
      ''ExceptionGroup'', ''False'', ''FileExistsError'', ''FileNotFoundError'',
      ''FloatingPointError'', ''FutureWarning'', ''GeneratorExit'', ''IOError'',
      ''ImportError'', ''ImportWarning'', ''IndentationError'', ''IndexError'',
      ''InterruptedError'', ''IsADirectoryError'', ''KeyError'', ''KeyboardInterrupt'',
      ''LookupError'', ''MemoryError'', ''ModuleNotFoundError'', ''NameError'', ''None'',
      ''NotADirectoryError'', ''NotImplemented'', ''NotImplementedError'', ''OSError'',
      ''OverflowError'', ''PendingDeprecationWarning'', ''PermissionError'',
      ''ProcessLookupError'', ''RecursionError'', ''ReferenceError'', ''ResourceWarning'',
      ''RuntimeError'', ''RuntimeWarning'', ''StopAsyncIteration'', ''StopIteration'',
      ''SyntaxError'', ''SyntaxWarning'', ''SystemError'', ''SystemExit'', ''TabError'',
      ''TimeoutError'', ''True'', ''TypeError'', ''UnboundLocalError'', ''UnicodeDecodeError'',
      ''UnicodeEncodeError'', ''UnicodeError'', ''UnicodeTranslateError'', ''UnicodeWarning'',
      ''UserWarning'', ''ValueError'', ''Warning'', ''ZeroDivisionError'', ''__build_class__'',
      ''__debug__'', ''__doc__'', ''__import__'', ''__loader__'', ''__name__'',
      ''__package__'', ''__spec__'', ''abs'', ''aiter'', ''all'', ''anext'', ''any'',
      ''ascii'', ''bin'', ''bool'', ''breakpoint'', ''bytearray'', ''bytes'', ''callable'',
      ''chr'', ''classmethod'', ''compile'', ''complex'', ''copyright'', ''credits'',
      ''delattr'', ''dict'', ''dir'', ''divmod'', ''enumerate'', ''eval'', ''exec'', ''exit'',
      ''filter'', ''float'', ''format'', ''frozenset'', ''getattr'', ''globals'', ''hasattr'',
      ''hash'', ''help'', ''hex'', ''id'', ''input'', ''int'', ''isinstance'', ''issubclass'',
      ''iter'', ''len'', ''license'', ''list'', ''locals'', ''map'', ''max'', ''memoryview'',
      ''min'', ''next'', ''object'', ''oct'', ''open'', ''ord'', ''pow'', ''print'',
      ''property'', ''quit'', ''range'', ''repr'', ''reversed'', ''round'', ''set'',
      ''setattr'', ''slice'', ''sorted'', ''staticmethod'', ''str'', ''sum'', ''super'',
      ''tuple'', ''type'', ''vars'', ''zip'']"

type_synonym scope = "(string \<times> pyobj) list"

fun lookup_name :: "scope list \<Rightarrow> string \<Rightarrow> error + pyobj" where
  "lookup_name [] x = Inl NameError"
| "lookup_name (scope # scopes) x =
     (case map_of scope x of Some v \<Rightarrow> Inr v | None \<Rightarrow> lookup_name scopes x)"

definition outer_scopes :: "scope list" where
  "outer_scopes = [map (\<lambda>x. (x, PyOther)) module_globals, map (\<lambda>x. (x, PyOther)) builtins]"

subsection \<open>Dataframes\<close>

text \<open>
  A dataframe is the list of its rows, each with its index label; a row gives the cells by
  column name. The files are a function from a path and a compression to the rows read.
\<close>

datatype index_label = Position nat | Label string

type_synonym row = "(string \<times> string) list"

type_synonym dataframe = "(index_label \<times> row) list"

type_synonym files = "string \<Rightarrow> string \<Rightarrow> row list option"

definition read_csv :: "files \<Rightarrow> pyobj \<Rightarrow> pyobj \<Rightarrow> error + dataframe" where
  "read_csv fs filepath compression =
     (case filepath of
        PyStr p \<Rightarrow>
          (case compression of
             PyStr c \<Rightarrow>
               (case fs p c of
                  None \<Rightarrow> Inl FileNotFoundError
                | Some rows \<Rightarrow> Inr (zip (map Position [0..<length rows]) rows))
           | _ \<Rightarrow> Inl ValueError)
      | _ \<Rightarrow> Inl ValueError)"

definition reset_index :: "dataframe \<Rightarrow> dataframe" where
  "reset_index df = zip (map Position [0..<length df]) (map snd df)"

text \<open>\<^verbatim>\<open>pd.concat\<close> of no frame raises \<^verbatim>\<open>ValueError\<close>.\<close>

definition pd_concat :: "dataframe list \<Rightarrow> error + dataframe" where
  "pd_concat dfs = (if dfs = [] then Inl ValueError else Inr (concat dfs))"

definition set_column :: "string \<Rightarrow> string \<Rightarrow> dataframe \<Rightarrow> dataframe" where
  "set_column col v df = map (\<lambda>(i, r). (i, AList.update col v r)) df"

definition set_index :: "string \<Rightarrow> dataframe \<Rightarrow> error + dataframe" where
  "set_index col df =
     (if list_all (\<lambda>(i, r). map_of r col \<noteq> None) df
      then Inr (map (\<lambda>(i, r). (Label (the (map_of r col)), filter (\<lambda>c. fst c \<noteq> col) r)) df)
      else Inl KeyError)"

subsection \<open>The loader\<close>

text \<open>
  The comprehension \<^verbatim>\<open>[pd.read_csv(file, compression=compression) for path in filepath]\<close>.
  Each round binds \<^verbatim>\<open>path\<close> in the scope of the comprehension and evaluates the call:
  first \<^verbatim>\<open>pd\<close>, then the argument \<^verbatim>\<open>file\<close>, then \<^verbatim>\<open>compression\<close>.
\<close>

fun read_each :: "files \<Rightarrow> scope list \<Rightarrow> string list \<Rightarrow> error + dataframe list" where
  "read_each fs scopes [] = Inr []"
| "read_each fs scopes (path # paths) =
     (let inner = [(''path'', PyStr path)] # scopes
      in case lookup_name inner ''pd'' of
           Inl e \<Rightarrow> Inl e
         | Inr pd \<Rightarrow>
             (case lookup_name inner ''file'' of
                Inl e \<Rightarrow> Inl e
              | Inr file \<Rightarrow>
                  (case lookup_name inner ''compression'' of
                     Inl e \<Rightarrow> Inl e
                   | Inr compression \<Rightarrow>
                       (case read_csv fs file compression of
                          Inl e \<Rightarrow> Inl e
                        | Inr df \<Rightarrow>
                            (case read_each fs scopes paths of
                               Inl e \<Rightarrow> Inl e
                             | Inr dfs \<Rightarrow> Inr (df # dfs))))))"

text \<open>The loop over the keys of a dictionary of paths.\<close>

fun read_keyed :: "files \<Rightarrow> pyobj \<Rightarrow> (string \<times> string) list \<Rightarrow> error + dataframe list" where
  "read_keyed fs compression [] = Inr []"
| "read_keyed fs compression (entry # entries) =
     (case read_csv fs (PyStr (snd entry)) compression of
        Inl e \<Rightarrow> Inl e
      | Inr data \<Rightarrow>
          (case read_keyed fs compression entries of
             Inl e \<Rightarrow> Inl e
           | Inr dfs \<Rightarrow> Inr (set_column ''subset'' (fst entry) data # dfs)))"

text \<open>
  \<^verbatim>\<open>load_dataframe(filepath, compression)\<close>; the result \<open>None\<close> is the bare
  \<^verbatim>\<open>return\<close> at the end. In the branch of the lists the scope of the function holds its
  two parameters.
\<close>

definition load_dataframe :: "files \<Rightarrow> pyobj \<Rightarrow> string \<Rightarrow> error + dataframe option" where
  "load_dataframe fs filepath compression =
     (case filepath of
        PyStr p \<Rightarrow>
          (case read_csv fs (PyStr p) (PyStr compression) of
             Inl e \<Rightarrow> Inl e
           | Inr df \<Rightarrow> Inr (Some (reset_index df)))
      | PyList paths \<Rightarrow>
          (case read_each fs
                  ([(''filepath'', filepath), (''compression'', PyStr compression)] # outer_scopes)
                  paths of
             Inl e \<Rightarrow> Inl e
           | Inr dataframes \<Rightarrow>
               (case pd_concat dataframes of Inl e \<Rightarrow> Inl e | Inr df \<Rightarrow> Inr (Some df)))
      | PyDict d \<Rightarrow>
          (case read_keyed fs (PyStr compression) d of
             Inl e \<Rightarrow> Inl e
           | Inr dataframes \<Rightarrow>
               (case pd_concat dataframes of
                  Inl e \<Rightarrow> Inl e
                | Inr df \<Rightarrow>
                    (case set_index ''subset'' (reset_index df) of
                       Inl e \<Rightarrow> Inl e
                     | Inr df' \<Rightarrow> Inr (Some df'))))
      | PyOther \<Rightarrow> Inr None)"

section \<open>The render cycle of the pages\<close>

subsection \<open>Events of a run\<close>

text \<open>
  A run of a page script is recorded as the list of what it does, in the order of execution:
  the elements it writes to the page, the tables and taxonomies it loads, what it computes
  from the selected data, the charts and tables of data it displays, and \<^verbatim>\<open>st.stop()\<close>.
\<close>

datatype computation =
    Date_selection | Word_options | Frequency_chart | Collocation_graph | Network_figure
  | Network_document | Source_data | Total | Daily_chart

datatype display = Altair | Table | Figure | Network | Metric

datatype event =
    Title string | Header string | Markdown | Text_line | Info string | Error string
  | Widget string | Load string | Compute computation | Display display | Stop

definition is_chart :: "event \<Rightarrow> bool" where
  "is_chart e = (case e of Compute c \<Rightarrow> True | Display d \<Rightarrow> True | _ \<Rightarrow> False)"

text \<open>
  A script is a sequence of sections run one after the other on the settings of the run;
  \<^verbatim>\<open>st.stop()\<close> ends the run, so what follows it is not executed.
\<close>

fun run :: "('s \<Rightarrow> event list) list \<Rightarrow> 's \<Rightarrow> event list" where
  "run [] s = []"
| "run (part # script) s =
     (let es = part s
      in if Stop \<in> set es then takeWhile (\<lambda>e. e \<noteq> Stop) es @ [Stop] else es @ run script s)"

text \<open>
  The two dates of the sidebar, as day numbers (\<^verbatim>\<open>datetime.date\<close> values are compared as
  their ordinals).
\<close>

type_synonym date = int

record date_range =
  data_range_start :: date
  data_range_end :: date

definition date_error :: string where
  "date_error = ''Date range selection error: The end date must be later than the start date.''"

definition date_check :: "'a date_range_scheme \<Rightarrow> event list" where
  "date_check s = (if data_range_start s > data_range_end s then [Error date_error, Stop] else [])"

subsection \<open>Dashboard.py\<close>

text \<open>
  The settings of a run of the dashboard: the dates, the check boxes and the radio button of
  the sidebar, and the values of the selectors of the page (the words selected, and the subset
  to compare to, \<open>None\<close> for the option \<^verbatim>\<open>'None'\<close>).
\<close>

record settings = date_range +
  ngramChart :: bool
  ngramPointChart :: bool
  timelineChart :: bool
  ngramData :: bool
  ngramHelp :: bool
  collocChart :: bool
  collocation_type :: metric
  collocData :: bool
  collocHelp :: bool
  selected_words :: "string list"
  cf_corpus_subset :: "string option"

definition page_setup :: "settings \<Rightarrow> event list" where
  "page_setup s = [Markdown]"

definition sidebar :: "settings \<Rightarrow> event list" where
  "sidebar s =
     [Title ''Covid Rumours in Historical Context'', Text_line,
      Load ''unigrams'', Load ''bigrams'', Load ''timeline'', Load ''taxonomies'', Text_line,
      Widget ''Select all or a subset of tweets'',
      Widget ''From (YYYY-MM-DD)'', Widget ''To (YYYY-MM-DD)'',
      Widget ''Show word frequencies'', Widget ''Show as point chart'', Widget ''Show timeline'',
      Widget ''Show source data'', Widget ''Show help'',
      Widget ''Show word collocations'', Widget ''Choose collocation type'',
      Widget ''Show source data'', Widget ''Show help'', Widget ''Update'']"

definition data_selection :: "settings \<Rightarrow> event list" where
  "data_selection s =
     (if data_range_start s \<le> data_range_end s
      then [Compute Date_selection, Compute Word_options] else [])"

definition content_head :: "settings \<Rightarrow> event list" where
  "content_head s = [Title ''Dashboard: Tweets Explorer'', Markdown]"

definition collocation_type_label :: "metric \<Rightarrow> string" where
  "collocation_type_label m =
     (case m of F_xy \<Rightarrow> ''Frequency'' | Pmi \<Rightarrow> ''Pointwise Mutual Information (PMI)'')"

definition selectors :: "settings \<Rightarrow> event list" where
  "selectors s =
     [Widget ''Words to explore'', Widget ''Update'',
      Widget ''Suggest words only from taxonomy category:'']"

definition ngram_section :: "settings \<Rightarrow> event list" where
  "ngram_section s =
     (if ngramChart s
      then [Header (if timelineChart s then ''Word frequencies and timeline''
                    else ''Word frequencies'')]
           @ (if ngramHelp s then [Markdown, Markdown, Markdown, Markdown] else [])
      else [])"

definition colloc_section :: "settings \<Rightarrow> event list" where
  "colloc_section s =
     (if collocChart s
      then [Header (''Word collocations by '' @ collocation_type_label (collocation_type s)),
            Widget ''Additional words to collocate'', Widget ''Number of collocates'',
            Widget ''Compare to'']
           @ (if collocHelp s then [Markdown, Markdown, Markdown, Markdown] else [])
      else [])"

definition ngram_charts :: "settings \<Rightarrow> event list" where
  "ngram_charts s =
     (if ngramChart s
      then (if selected_words s \<noteq> [] then [Compute Frequency_chart] else [])
           @ (if selected_words s \<noteq> []
              then [Display Altair]
                   @ (if ngramData s
                      then (if timelineChart s
                            then [Compute Source_data, Markdown, Display Table,
                                  Markdown, Display Table]
                            else [Display Table])
                      else [])
              else [Info ''No word selected. Please enter one or more words above.''])
      else [])"

definition visualisation_library :: string where
  "visualisation_library = ''pyvis''"

definition colloc_charts :: "settings \<Rightarrow> event list" where
  "colloc_charts s =
     (if collocChart s
      then (if selected_words s \<noteq> []
            then [Compute Collocation_graph]
                 @ (if cf_corpus_subset s \<noteq> None then [Compute Collocation_graph] else [])
                 @ (if visualisation_library = ''matplotlib''
                    then [Compute Network_figure]
                         @ (if cf_corpus_subset s \<noteq> None then [Compute Network_figure] else [])
                    else [Compute Network_document]
                         @ (if cf_corpus_subset s \<noteq> None then [Compute Network_document] else []))
            else [])
           @ (if selected_words s \<noteq> []
              then (if cf_corpus_subset s = None
                    then [Markdown,
                          Display (if visualisation_library = ''matplotlib'' then Figure else Network)]
                    else [Markdown,
                          Display (if visualisation_library = ''matplotlib'' then Figure else Network),
                          Markdown,
                          Display (if visualisation_library = ''matplotlib'' then Figure else Network)])
                   @ (if collocData s
                      then [Compute Source_data]
                           @ (if cf_corpus_subset s \<noteq> None then [Compute Source_data] else [])
                           @ (if cf_corpus_subset s = None
                              then [Display Table]
                              else [Markdown, Display Table, Markdown, Display Table])
                      else [])
              else [Info ''No words to collocate. Please select one or more words.''])
      else [])"

definition dashboard :: "settings \<Rightarrow> event list" where
  "dashboard =
     run [page_setup, sidebar, data_selection, content_head, date_check,
          selectors, ngram_section, colloc_section, ngram_charts, colloc_charts]"

subsection \<open>pages/About\_the\_data.py\<close>

definition about_setup :: "date_range \<Rightarrow> event list" where
  "about_setup s = [Markdown]"

definition about_sidebar :: "date_range \<Rightarrow> event list" where
  "about_sidebar s =
     [Title ''Covid Rumours in Historical Context'', Text_line,
      Load ''tweets-daily'', Load ''tweets-retweeted-daily'', Load ''users-daily'', Text_line,
      Widget ''From (YYYY/MM/DD)'', Widget ''To (YYYY/MM/DD)'', Widget ''Update'']"

definition about_selection :: "date_range \<Rightarrow> event list" where
  "about_selection s =
     (if data_range_start s \<le> data_range_end s then [Compute Date_selection] else [])"

definition about_head :: "date_range \<Rightarrow> event list" where
  "about_head s = [Title ''About the data'', Markdown, Header ''Summary'', Markdown]"

definition overview :: "date_range \<Rightarrow> event list" where
  "overview s =
     concat (replicate 6 [Compute Total, Display Metric])"

definition daily :: "string \<Rightarrow> event list \<Rightarrow> event list" where
  "daily title notes = [Header title] @ notes @ [Compute Daily_chart, Display Altair]"

definition daily_charts :: "date_range \<Rightarrow> event list" where
  "daily_charts s =
     daily ''Tweets'' []
     @ daily ''Retweeted tweets'' [Text_line, Text_line]
     @ daily ''Favourites'' [Text_line]
     @ daily ''Replies'' [Text_line]
     @ daily ''Quotes'' [Text_line]
     @ daily ''Account creation'' [Text_line]"

definition about_the_data :: "date_range \<Rightarrow> event list" where
  "about_the_data =
     run [about_setup, about_sidebar, about_selection, about_head, date_check,
          overview, daily_charts]"

section \<open>Example inputs\<close>

text \<open>Two focus words with one common neighbour.\<close>

definition shared_table :: "bigram list" where
  "shared_table =
     [\<lparr>col_date = ''2020-04-13'', col_x = ''truth'', col_y = ''covid'', col_f_xy = 3, col_pmi = 1\<rparr>,
      \<lparr>col_date = ''2020-04-13'', col_x = ''hoax'', col_y = ''covid'', col_f_xy = 2, col_pmi = 1\<rparr>]"

text \<open>One focus word with three collocates.\<close>

definition three_table :: "bigram list" where
  "three_table =
     [\<lparr>col_date = ''2020-04-13'', col_x = ''truth'', col_y = ''covid'', col_f_xy = 3, col_pmi = 1\<rparr>,
      \<lparr>col_date = ''2020-04-13'', col_x = ''truth'', col_y = ''hoax'', col_f_xy = 2, col_pmi = 1\<rparr>,
      \<lparr>col_date = ''2020-04-13'', col_x = ''truth'', col_y = ''lies'', col_f_xy = 1, col_pmi = 1\<rparr>]"

text \<open>A pair of focus words that occurs in both orders.\<close>

definition mutual_table :: "bigram list" where
  "mutual_table =
     [\<lparr>col_date = ''2020-04-13'', col_x = ''truth'', col_y = ''hoax'', col_f_xy = 5, col_pmi = 6 / 5\<rparr>,
      \<lparr>col_date = ''2020-04-14'', col_x = ''hoax'', col_y = ''truth'', col_f_xy = 4, col_pmi = 1\<rparr>]"


text \<open>A taxonomy of two categories, one with a subcategory.\<close>

definition ex_raw :: "raw_taxonomy list" where
  "ex_raw = [RawTaxonomy (Some ''Vaccines'') (Some [''Big Pharma'', ''jab* and  needle''])
       (Some [RawTaxonomy (Some ''Sub'') (Some [''x'', ''Zeta'']) None]),
     RawTaxonomy (Some ''Cures'') (Some [''bleach'']) None]"

text \<open>Two categories with the same list of subcategories.\<close>

definition dup_raw :: "raw_taxonomy list" where
  "dup_raw = [RawTaxonomy (Some ''Conspiracy'') None
       (Some [RawTaxonomy (Some ''Jabs'') (Some [''vaccine'']) None]),
     RawTaxonomy (Some ''Vaccines'') None
       (Some [RawTaxonomy (Some ''Jabs'') (Some [''vaccine'']) None])]"

definition ex_graph :: digraph where
  "ex_graph =
     (case get_nx_taxonomies_graph (fst (tidy_taxonomies ex_raw ([], 0))) empty_digraph None of
        Inl e \<Rightarrow> empty_digraph
      | Inr g \<Rightarrow> g)"

text \<open>Files in which every path holds one row.\<close>

definition ex_files :: files where
  "ex_files p c = Some [[(''date'', ''2020-04-13''), (''word'', ''truth''), (''count'', ''3'')]]"

text \<open>
  Settings with every chart switched on and two words selected, the first with the start date
  (1 June 2021) after the end date (13 April 2020), the second with the dates in order.
\<close>

definition ex_settings :: "date \<Rightarrow> date \<Rightarrow> settings" where
  "ex_settings d1 d2 =
     \<lparr>data_range_start = d1, data_range_end = d2,
      ngramChart = True, ngramPointChart = False, timelineChart = True, ngramData = True,
      ngramHelp = True, collocChart = True, collocation_type = Pmi, collocData = True,
      collocHelp = True, selected_words = [''truth'', ''hoax''],
      cf_corpus_subset = Some ''cures''\<rparr>"

section \<open>Properties of the collocation graph builder\<close>

subsection \<open>Truncation and simple graphs\<close>

lemma head_rows_count:
  "length (filter (\<lambda>r. cx r = w) (head_rows n seen rows)) \<le> n - count_list seen w"
proof (induction rows arbitrary: seen)
  case Nil
  show ?case by simp
next
  case (Cons r rs)
  have ih: "length (filter (\<lambda>r. cx r = w) (head_rows n (cx r # seen) rs))
      \<le> n - count_list (cx r # seen) w"
    by (rule Cons.IH)
  show ?case
  proof (cases "count_list seen (cx r) < n")
    case True
    with ih show ?thesis by (cases "cx r = w") auto
  next
    case False
    with ih show ?thesis by (cases "cx r = w") auto
  qed
qed

lemma groupby_head_count:
  "length (filter (\<lambda>r. cx r = w) (groupby_head (int k) rows)) \<le> k"
  using head_rows_count [of w k "[]" rows] by (simp add: groupby_head_def)


lemma joins_sym: "joins u v e = joins v u e"
  by (auto simp: joins_def)

lemma g_edges_add_node [simp]: "g_edges (add_node g w) = g_edges g"
  by (simp add: add_node_def)

lemma joins_reweigh [simp]: "joins a b (fst e, fst (snd e), w) = joins a b e"
  by (simp add: joins_def)

lemma joins_same: "joins a b e \<Longrightarrow> joins u v e \<Longrightarrow> joins a b = joins u v"
  by (auto simp: joins_def fun_eq_iff)

lemma filter_joins_reweigh:
  "filter (joins a b) (map (\<lambda>e. if joins u v e then (fst e, fst (snd e), w) else e) es)
   = map (\<lambda>e. if joins u v e then (fst e, fst (snd e), w) else e) (filter (joins a b) es)"
  by (induction es) auto

lemma simple_edges_add_edge:
  assumes "simple_edges (g_edges g)"
  shows "simple_edges (g_edges (add_edge g u v w))"
proof (cases "list_ex (joins u v) (g_edges g)")
  case True
  then show ?thesis using assms
    by (simp add: add_edge_def Let_def simple_edges_def filter_joins_reweigh)
next
  case False
  then have none: "filter (joins u v) (g_edges g) = []"
    by (auto simp: list_ex_iff filter_empty_conv)
  have "length (filter (joins a b) (g_edges g @ [(u, v, w)])) \<le> 1" for a b
  proof (cases "joins a b (u, v, w)")
    case True
    have "joins u v (u, v, w)" by (simp add: joins_def)
    with True have "joins a b = joins u v" by (rule joins_same)
    with none show ?thesis by simp
  next
    case False
    with assms show ?thesis by (simp add: simple_edges_def)
  qed
  with False show ?thesis
    by (simp add: add_edge_def Let_def simple_edges_def)
qed

lemma simple_edges_foldl:
  "simple_edges (g_edges g) \<Longrightarrow>
   simple_edges (g_edges (foldl (\<lambda>g r. add_edge g (cx r) (cy r) (metric_value m r)) g rows))"
  by (induction rows arbitrary: g) (simp_all add: simple_edges_add_edge)

lemma g_edges_foldl_add_node [simp]: "g_edges (foldl add_node g ws) = g_edges g"
  by (induction ws arbitrary: g) simp_all

lemma simple_edges_collocation:
  "simple_edges (g_edges (get_nx_collocation_graph bigrams ws m topn))"
proof -
  have e: "simple_edges (g_edges empty_graph)"
    by (simp add: empty_graph_def simple_edges_def)
  show ?thesis
    using e simple_edges_foldl [OF e]
    by (simp add: get_nx_collocation_graph_def Let_def from_pandas_edgelist_def)
qed

lemma filter_le_one_unique:
  assumes "length (filter P xs) \<le> 1" "a \<in> set xs" "b \<in> set xs" "P a" "P b"
  shows "a = b"
proof -
  from assms(2,4) have a: "a \<in> set (filter P xs)" by simp
  from assms(3,5) have b: "b \<in> set (filter P xs)" by simp
  from assms(1) a obtain z where "filter P xs = [z]"
    by (cases "filter P xs") (auto simp: Suc_le_eq)
  with a b show ?thesis by simp
qed

lemma simple_edges_distinct:
  assumes "simple_edges es"
  shows "distinct es"
proof (rule ccontr)
  assume "\<not> distinct es"
  then obtain xs ys zs e where es: "es = xs @ [e] @ ys @ [e] @ zs"
    using not_distinct_decomp by blast
  have "joins (fst e) (fst (snd e)) e" by (simp add: joins_def)
  then have "2 \<le> length (filter (joins (fst e) (fst (snd e))) es)"
    by (simp add: es)
  with assms show False
    unfolding simple_edges_def
    by (metis Suc_1 not_less_eq_eq)
qed

lemma contributed_count:
  assumes "simple_edges es"
  shows "length (filter (contributed rows w) es) \<le> length (filter (\<lambda>r. cx r = w) rows)"
proof -
  let ?S = "set (filter (contributed rows w) es)"
  let ?T = "cy ` set (filter (\<lambda>r. cx r = w) rows)"
  let ?f = "\<lambda>e::string \<times> string \<times> rat. if fst e = w then fst (snd e) else fst e"
  have other: "joins w (?f e) e \<and> ?f e \<in> ?T" if "e \<in> ?S" for e
  proof -
    from that obtain r where r: "r \<in> set rows" "cx r = w" "joins w (cy r) e"
      by (auto simp: contributed_def list_ex_iff)
    then have "?f e = cy r" by (auto simp: joins_def)
    with r show ?thesis by auto
  qed
  have inj: "inj_on ?f ?S"
  proof (rule inj_onI)
    fix a b assume a: "a \<in> ?S" and b: "b \<in> ?S" and eq: "?f a = ?f b"
    from other [OF a] other [OF b] eq
    have j1: "joins w (?f a) a" and j2: "joins w (?f a) b" by auto
    from assms have le: "length (filter (joins w (?f a)) es) \<le> 1"
      by (simp add: simple_edges_def)
    from a have ma: "a \<in> set es" by simp
    from b have mb: "b \<in> set es" by simp
    show "a = b" by (rule filter_le_one_unique [OF le ma mb j1 j2])
  qed
  have d: "distinct (filter (contributed rows w) es)"
    using simple_edges_distinct [OF assms] by simp
  have "length (filter (contributed rows w) es) = card ?S"
    by (rule distinct_card [OF d, symmetric])
  also have "\<dots> = card (?f ` ?S)" by (rule card_image [OF inj, symmetric])
  also have "\<dots> \<le> card ?T"
  proof (rule card_mono)
    show "finite ?T" by (rule finite_imageI) (rule finite_set)
    show "?f ` ?S \<subseteq> ?T" using other by blast
  qed
  also have "\<dots> \<le> card (set (filter (\<lambda>r. cx r = w) rows))"
    by (rule card_image_le) simp
  also have "\<dots> \<le> length (filter (\<lambda>r. cx r = w) rows)"
    by (rule card_length)
  finally show ?thesis .
qed

subsection \<open>The claims about the collocation graph\<close>

text \<open>
  Claim C1. For every bigram table, focus-word list and metric, and every number \<open>topn\<close> of
  topmost collocates that is not negative, at most \<open>topn\<close> rows of the truncated frame have
  a given word \<open>w\<close> in the source column, and at most \<open>topn\<close> edges of the returned graph are
  contributed by \<open>w\<close> in source position. The degree of a shared neighbour is not bounded by
  \<open>topn\<close>: with one topmost collocate and the two focus words of \<open>shared_table\<close>, their
  common neighbour has degree 2.
\<close>

theorem top_k_bounds_out_degree:
  assumes "0 \<le> topn"
  shows "int (length (filter (\<lambda>r. cx r = w) (df_collocates bigrams words m topn))) \<le> topn
   \<and> int (length (filter (contributed (df_collocates bigrams words m topn) w)
         (g_edges (get_nx_collocation_graph bigrams words m topn)))) \<le> topn
   \<and> degree (get_nx_collocation_graph shared_table [''truth'', ''hoax''] F_xy 1) ''covid'' = 2"
proof -
  from assms obtain k where k: "topn = int k" by (rule nonneg_int_cases)
  have rows: "length (filter (\<lambda>r. cx r = w) (df_collocates bigrams words m (int k))) \<le> k"
    unfolding df_collocates_def by (rule groupby_head_count)
  have "length (filter (contributed (df_collocates bigrams words m (int k)) w)
         (g_edges (get_nx_collocation_graph bigrams words m (int k))))
        \<le> length (filter (\<lambda>r. cx r = w) (df_collocates bigrams words m (int k)))"
    by (rule contributed_count) (rule simple_edges_collocation)
  with rows have edges: "length (filter (contributed (df_collocates bigrams words m (int k)) w)
         (g_edges (get_nx_collocation_graph bigrams words m (int k)))) \<le> k"
    by linarith
  have shared: "degree (get_nx_collocation_graph shared_table [''truth'', ''hoax''] F_xy 1) ''covid'' = 2"
    by code_simp
  from rows edges shared show ?thesis unfolding k by simp
qed

text \<open>
  The bound of C1 at \<open>shared_table\<close>, where it is attained.
\<close>

theorem top_k_bounds_out_degree_witness:
  "int (length (filter (\<lambda>r. cx r = ''truth'') (df_collocates shared_table [''truth'', ''hoax''] F_xy 1))) \<le> 1
   \<and> int (length (filter (contributed (df_collocates shared_table [''truth'', ''hoax''] F_xy 1) ''truth'')
         (g_edges (get_nx_collocation_graph shared_table [''truth'', ''hoax''] F_xy 1)))) \<le> 1
   \<and> length (filter (contributed (df_collocates shared_table [''truth'', ''hoax''] F_xy 1) ''truth'')
         (g_edges (get_nx_collocation_graph shared_table [''truth'', ''hoax''] F_xy 1))) = 1"
proof -
  have "length (filter (contributed (df_collocates shared_table [''truth'', ''hoax''] F_xy 1) ''truth'')
         (g_edges (get_nx_collocation_graph shared_table [''truth'', ''hoax''] F_xy 1))) = 1"
    by code_simp
  with top_k_bounds_out_degree [of 1 "''truth''" shared_table "[''truth'', ''hoax'']" F_xy]
  show ?thesis by simp
qed

text \<open>
  The builder does not check the number it is given, and a negative number is no bound:
  \<^verbatim>\<open>groupby('x').head(-1)\<close> keeps the rows of a group but the last, so on \<open>three_table\<close>
  the focus word keeps two of its three rows and contributes two edges.
\<close>

theorem negative_top_k_exceeded:
  "get_nx_collocation_graph three_table [''truth''] F_xy (- 1)
     = \<lparr>g_nodes = [''truth'', ''covid'', ''hoax''],
        g_edges = [(''truth'', ''covid'', 3), (''truth'', ''hoax'', 2)]\<rparr>
   \<and> length (filter (\<lambda>r. cx r = ''truth'') (df_collocates three_table [''truth''] F_xy (- 1))) = 2
   \<and> length (filter (contributed (df_collocates three_table [''truth''] F_xy (- 1)) ''truth'')
         (g_edges (get_nx_collocation_graph three_table [''truth''] F_xy (- 1)))) = 2
   \<and> \<not> int (length (filter (contributed (df_collocates three_table [''truth''] F_xy (- 1)) ''truth'')
         (g_edges (get_nx_collocation_graph three_table [''truth''] F_xy (- 1))))) \<le> - 1"
proof -
  have g: "get_nx_collocation_graph three_table [''truth''] F_xy (- 1)
     = \<lparr>g_nodes = [''truth'', ''covid'', ''hoax''],
        g_edges = [(''truth'', ''covid'', 3), (''truth'', ''hoax'', 2)]\<rparr>"
    by code_simp
  have r: "length (filter (\<lambda>r. cx r = ''truth'') (df_collocates three_table [''truth''] F_xy (- 1))) = 2"
    by code_simp
  have e: "length (filter (contributed (df_collocates three_table [''truth''] F_xy (- 1)) ''truth'')
         (g_edges (get_nx_collocation_graph three_table [''truth''] F_xy (- 1)))) = 2"
    by code_simp
  have n: "\<not> int 2 \<le> - 1" by simp
  from g r e n show ?thesis by simp
qed

lemma set_drop_duplicates [simp]: "set (drop_duplicates rows) = set rows"
  by (simp add: drop_duplicates_def)

lemma set_insort_desc [simp]: "set (insort_desc m a bs) = insert a (set bs)"
  by (induction bs) auto

lemma set_sort_values [simp]: "set (sort_values m rows) = set rows"
  by (induction rows) (simp_all add: sort_values_def)

lemma groupby_head_Nil [simp]: "groupby_head n [] = []"
  by (simp add: groupby_head_def)

lemma set_foldl_add_node:
  "set (g_nodes (foldl add_node g ws)) = set (g_nodes g) \<union> set ws"
  by (induction ws arbitrary: g) (auto simp: add_node_def)

lemma distinct_foldl_add_node:
  "distinct (g_nodes g) \<Longrightarrow> distinct (g_nodes (foldl add_node g ws))"
  by (induction ws arbitrary: g) (auto simp: add_node_def)

lemma sorted_collocates_no_match:
  assumes "\<forall>b\<in>set bigrams. col_x b \<notin> set words \<and> col_y b \<notin> set words"
  shows "sorted_collocates bigrams words m = []"
proof -
  have "set (sorted_collocates bigrams words m) = {}"
    using assms by (auto simp: sorted_collocates_def Let_def drop_date_def)
  then show ?thesis by simp
qed

text \<open>
  Claim C2. When no row of the table has a focus word in either column, the returned
  graph has exactly the focus words as nodes, each once, and no edge, so every focus word
  is isolated.
\<close>

theorem no_match_isolated_nodes:
  assumes "\<forall>b\<in>set bigrams. col_x b \<notin> set words \<and> col_y b \<notin> set words"
  shows "set (g_nodes (get_nx_collocation_graph bigrams words m topn)) = set words
    \<and> distinct (g_nodes (get_nx_collocation_graph bigrams words m topn))
    \<and> g_edges (get_nx_collocation_graph bigrams words m topn) = []
    \<and> (\<forall>w\<in>set words. degree (get_nx_collocation_graph bigrams words m topn) w = 0)"
proof -
  have g: "get_nx_collocation_graph bigrams words m topn = foldl add_node empty_graph words"
    by (simp add: get_nx_collocation_graph_def df_collocates_def
        sorted_collocates_no_match [OF assms])
  have n: "set (g_nodes (foldl add_node empty_graph words)) = set words"
    by (simp add: set_foldl_add_node empty_graph_def)
  have d: "distinct (g_nodes (foldl add_node empty_graph words))"
    by (rule distinct_foldl_add_node) (simp add: empty_graph_def)
  have e: "g_edges (foldl add_node empty_graph words) = []"
    by (simp add: empty_graph_def)
  from n d e show ?thesis by (simp add: g degree_def)
qed

text \<open>
  Claim C3. On the table with the rows (truth, hoax, 5, 1.2) and (hoax, lies, 9, 0.4),
  whatever their dates, the focus word truth, the metric \<^verbatim>\<open>f_xy\<close> and one topmost
  collocate, the graph has the nodes truth and hoax and the single edge truth--hoax of
  weight 5.
\<close>

theorem scenario_truth_hoax:
  "get_nx_collocation_graph
     [\<lparr>col_date = d1, col_x = ''truth'', col_y = ''hoax'', col_f_xy = 5, col_pmi = 6 / 5\<rparr>,
      \<lparr>col_date = d2, col_x = ''hoax'', col_y = ''lies'', col_f_xy = 9, col_pmi = 2 / 5\<rparr>]
     [''truth''] F_xy 1
   = \<lparr>g_nodes = [''truth'', ''hoax''], g_edges = [(''truth'', ''hoax'', 5)]\<rparr>"
  by (simp add: get_nx_collocation_graph_def df_collocates_def sorted_collocates_def
      drop_duplicates_def drop_date_def rename_xy_def sort_values_def groupby_head_def
      from_pandas_edgelist_def add_edge_def add_node_def empty_graph_def metric_value_def
      joins_def)

text \<open>
  C2 at the focus word \<open>zzz_not_present\<close>, which \<open>shared_table\<close> does not contain.
\<close>

theorem no_match_isolated_nodes_witness:
  "set (g_nodes (get_nx_collocation_graph shared_table [''zzz_not_present''] Pmi 7)) = {''zzz_not_present''}
   \<and> g_edges (get_nx_collocation_graph shared_table [''zzz_not_present''] Pmi 7) = []"
proof -
  have h: "\<forall>b\<in>set shared_table. col_x b \<notin> set [''zzz_not_present''] \<and> col_y b \<notin> set [''zzz_not_present'']"
    by code_simp
  from no_match_isolated_nodes [OF h, of Pmi 7] show ?thesis by simp
qed

lemma list_ex_add_edge_old:
  assumes "list_ex (joins a b) (g_edges g)"
  shows "list_ex (joins a b) (g_edges (add_edge g u v w))"
proof -
  from assms obtain e where e: "e \<in> set (g_edges g)" "joins a b e"
    by (auto simp: list_ex_iff)
  show ?thesis
  proof (cases "list_ex (joins u v) (g_edges g)")
    case True
    let ?upd = "\<lambda>e. if joins u v e then (fst e, fst (snd e), w) else e"
    from e have "?upd e \<in> set (map ?upd (g_edges g))" "joins a b (?upd e)" by auto
    then have "list_ex (joins a b) (map ?upd (g_edges g))"
      unfolding list_ex_iff by blast
    with True show ?thesis by (simp add: add_edge_def Let_def)
  next
    case False
    with e show ?thesis by (auto simp: add_edge_def Let_def list_ex_iff)
  qed
qed

lemma list_ex_add_edge_new: "list_ex (joins u v) (g_edges (add_edge g u v w))"
proof (cases "list_ex (joins u v) (g_edges g)")
  case True
  then show ?thesis by (rule list_ex_add_edge_old)
next
  case False
  then show ?thesis by (simp add: add_edge_def Let_def joins_def)
qed

lemma list_ex_foldl_old:
  "list_ex (joins a b) (g_edges g) \<Longrightarrow>
   list_ex (joins a b) (g_edges (foldl (\<lambda>g r. add_edge g (cx r) (cy r) (metric_value m r)) g rows))"
  by (induction rows arbitrary: g) (simp_all add: list_ex_add_edge_old)

lemma list_ex_foldl_row:
  "r \<in> set rows \<Longrightarrow>
   list_ex (joins (cx r) (cy r)) (g_edges (foldl (\<lambda>g r. add_edge g (cx r) (cy r) (metric_value m r)) g rows))"
proof (induction rows arbitrary: g)
  case Nil
  then show ?case by simp
next
  case (Cons a rows)
  show ?case
  proof (cases "r = a")
    case True
    then show ?thesis
      by (simp add: list_ex_foldl_old list_ex_add_edge_new)
  next
    case False
    with Cons show ?thesis by simp
  qed
qed

lemma row_has_edge:
  assumes "r \<in> set (df_collocates bigrams words m topn)"
  shows "list_ex (joins (cx r) (cy r)) (g_edges (get_nx_collocation_graph bigrams words m topn))"
proof -
  from assms have "df_collocates bigrams words m topn \<noteq> []" by auto
  then have "get_nx_collocation_graph bigrams words m topn
      = from_pandas_edgelist m (df_collocates bigrams words m topn)"
    by (simp add: get_nx_collocation_graph_def)
  with list_ex_foldl_row [OF assms] show ?thesis
    by (simp add: from_pandas_edgelist_def)
qed

lemma list_ex_filter_length: "list_ex P xs \<Longrightarrow> 1 \<le> length (filter P xs)"
  by (induction xs) auto


text \<open>
  Claim C10. In the returned graph any two words, in either order, are joined by at most
  one edge. A table row whose two words are both focus words appears in the combined
  frame under each of them, once as it is and once with its columns exchanged; and every
  row that survives the truncation is represented by exactly one edge.
\<close>

theorem no_parallel_edges:
  "length (filter (joins u v) (g_edges (get_nx_collocation_graph bigrams words m topn))) \<le> 1
   \<and> (b \<in> set bigrams \<and> col_x b \<in> set words \<and> col_y b \<in> set words \<longrightarrow>
        drop_date b \<in> set (sorted_collocates bigrams words m)
        \<and> rename_xy (drop_date b) \<in> set (sorted_collocates bigrams words m))
   \<and> (r \<in> set (df_collocates bigrams words m topn) \<longrightarrow>
        length (filter (joins (cx r) (cy r)) (g_edges (get_nx_collocation_graph bigrams words m topn))) = 1)"
proof (intro conjI impI)
  show one: "length (filter (joins u v) (g_edges (get_nx_collocation_graph bigrams words m topn))) \<le> 1"
    for u v
    using simple_edges_collocation [of bigrams words m topn] by (simp add: simple_edges_def)
  {
    assume b: "b \<in> set bigrams \<and> col_x b \<in> set words \<and> col_y b \<in> set words"
    then have x: "cx (drop_date b) \<in> set words" and y: "cy (drop_date b) \<in> set words"
      by (simp_all add: drop_date_def)
    from b x show "drop_date b \<in> set (sorted_collocates bigrams words m)"
      by (simp add: sorted_collocates_def Let_def)
    from b y show "rename_xy (drop_date b) \<in> set (sorted_collocates bigrams words m)"
      by (simp add: sorted_collocates_def Let_def)
  }
  {
    assume "r \<in> set (df_collocates bigrams words m topn)"
    then have "1 \<le> length (filter (joins (cx r) (cy r)) (g_edges (get_nx_collocation_graph bigrams words m topn)))"
      by (intro list_ex_filter_length row_has_edge)
    with one [of "cx r" "cy r"]
    show "length (filter (joins (cx r) (cy r)) (g_edges (get_nx_collocation_graph bigrams words m topn))) = 1"
      by linarith
  }
qed

text \<open>
  C10 at \<open>mutual_table\<close>, where both words are focus words and the pair occurs in both
  orders: the rows of the pair under truth and under hoax all survive, and one edge joins
  the two words.
\<close>

theorem no_parallel_edges_witness:
  "(\<lparr>col_date = ''2020-04-13'', col_x = ''truth'', col_y = ''hoax'', col_f_xy = 5, col_pmi = 6 / 5\<rparr>
       \<in> set mutual_table
     \<and> ''truth'' \<in> set [''truth'', ''hoax''] \<and> ''hoax'' \<in> set [''truth'', ''hoax''])
   \<and> \<lparr>cx = ''truth'', cy = ''hoax'', f_xy = 5, pmi = 6 / 5\<rparr>
       \<in> set (df_collocates mutual_table [''truth'', ''hoax''] F_xy 7)
   \<and> \<lparr>cx = ''hoax'', cy = ''truth'', f_xy = 5, pmi = 6 / 5\<rparr>
       \<in> set (df_collocates mutual_table [''truth'', ''hoax''] F_xy 7)
   \<and> length (filter (joins ''truth'' ''hoax'')
         (g_edges (get_nx_collocation_graph mutual_table [''truth'', ''hoax''] F_xy 7))) = 1"
proof -
  have h1: "\<lparr>col_date = ''2020-04-13'', col_x = ''truth'', col_y = ''hoax'', col_f_xy = 5, col_pmi = 6 / 5\<rparr>
       \<in> set mutual_table
     \<and> ''truth'' \<in> set [''truth'', ''hoax''] \<and> ''hoax'' \<in> set [''truth'', ''hoax'']"
    by code_simp
  have h2: "\<lparr>cx = ''truth'', cy = ''hoax'', f_xy = 5, pmi = 6 / 5\<rparr>
       \<in> set (df_collocates mutual_table [''truth'', ''hoax''] F_xy 7)"
    by code_simp
  have h3: "\<lparr>cx = ''hoax'', cy = ''truth'', f_xy = 5, pmi = 6 / 5\<rparr>
       \<in> set (df_collocates mutual_table [''truth'', ''hoax''] F_xy 7)"
    by code_simp
  have "length (filter (joins (cx \<lparr>cx = ''truth'', cy = ''hoax'', f_xy = 5, pmi = 6 / 5\<rparr>)
           (cy \<lparr>cx = ''truth'', cy = ''hoax'', f_xy = 5, pmi = 6 / 5\<rparr>))
         (g_edges (get_nx_collocation_graph mutual_table [''truth'', ''hoax''] F_xy 7))) = 1"
    using no_parallel_edges [where r = "\<lparr>cx = ''truth'', cy = ''hoax'', f_xy = 5, pmi = 6 / 5\<rparr>"
        and bigrams = mutual_table and words = "[''truth'', ''hoax'']" and m = F_xy and topn = 7] h2
    by blast
  then have "length (filter (joins ''truth'' ''hoax'')
         (g_edges (get_nx_collocation_graph mutual_table [''truth'', ''hoax''] F_xy 7))) = 1"
    by simp
  with h1 h2 h3 show ?thesis by blast
qed


section \<open>Properties of the taxonomy functions\<close>

subsection \<open>Descendants and the vocabulary of a category\<close>

lemma set_successors: "set (successors es u) = set es `` {u}"
  by (auto simp: successors_def Image_def intro: rev_image_eqI)

lemma closed_rtrancl:
  assumes "(s, v) \<in> E\<^sup>*" "s \<in> S" "\<And>a b. a \<in> S \<Longrightarrow> (a, b) \<in> E \<Longrightarrow> b \<in> S"
  shows "v \<in> S"
  using assms by (induction rule: rtrancl_induct) auto

lemma bfs_reaches:
  assumes "set queue \<subseteq> set seen"
    and "\<And>a b. a \<in> set seen \<Longrightarrow> a \<notin> set queue \<Longrightarrow> (a, b) \<in> set es \<Longrightarrow> b \<in> set seen"
    and "set seen \<subseteq> (set es)\<^sup>* `` {source}"
    and "source \<in> set seen"
  shows "set (bfs es queue seen) = (set es)\<^sup>* `` {source}"
  using assms
proof (induction es queue seen rule: bfs.induct)
  case (1 es seen)
  have "(set es)\<^sup>* `` {source} \<subseteq> set seen"
  proof
    fix v assume "v \<in> (set es)\<^sup>* `` {source}"
    then have "(source, v) \<in> (set es)\<^sup>*" by simp
    then show "v \<in> set seen"
      using "1.prems"(4) "1.prems"(2) by (rule closed_rtrancl) simp_all
  qed
  with "1.prems"(3) show ?case by simp
next
  case (2 es u queue seen)
  define children where "children = filter (\<lambda>v. v \<notin> set seen) (remdups (successors es u))"
  have ch: "set children = set es `` {u} - set seen"
    by (auto simp: children_def set_successors)
  from "2.prems"(1) have u: "u \<in> set seen" by simp
  have a: "set (queue @ children) \<subseteq> set (seen @ children)"
    using "2.prems"(1) by auto
  have b: "b \<in> set (seen @ children)"
    if "a \<in> set (seen @ children)" "a \<notin> set (queue @ children)" "(a, b) \<in> set es" for a b
  proof (cases "a = u")
    case True
    with that(3) show ?thesis by (auto simp: ch)
  next
    case False
    with that have "a \<in> set seen" "a \<notin> set (u # queue)" by auto
    with "2.prems"(2) that(3) have "b \<in> set seen" by blast
    then show ?thesis by simp
  qed
  have c: "set (seen @ children) \<subseteq> (set es)\<^sup>* `` {source}"
  proof -
    from u "2.prems"(3) have "(source, u) \<in> (set es)\<^sup>*" by auto
    then have "set es `` {u} \<subseteq> (set es)\<^sup>* `` {source}"
      by (auto intro: rtrancl_into_rtrancl)
    with "2.prems"(3) show ?thesis by (auto simp: ch)
  qed
  have d: "source \<in> set (seen @ children)" using "2.prems"(4) by simp
  have "set (bfs es (queue @ children) (seen @ children)) = (set es)\<^sup>* `` {source}"
    using a b c d by (rule "2.IH" [OF children_def])
  then show ?case by (simp add: children_def Let_def)
qed

lemma set_descendants:
  "set (descendants es source) = {v. (source, v) \<in> (set es)\<^sup>+ \<and> v \<noteq> source}"
proof -
  have "set (bfs es [source] [source]) = (set es)\<^sup>* `` {source}"
    by (rule bfs_reaches) auto
  then show ?thesis
    by (auto simp: descendants_def rtrancl_eq_or_trancl)
qed

lemma vocabulary_labels_attributed:
  "list_all has_attributes ns \<Longrightarrow>
   vocabulary_labels ns = Inr (map node_label (filter is_vocabulary ns))"
  by (induction ns) (auto simp: has_attributes_def node_label_def is_vocabulary_def)

lemma filter_subgraph_nodes:
  "filter is_vocabulary (subgraph_nodes g (descendants (dg_edges g) c))
   = filter (\<lambda>n. is_vocabulary n \<and> (c, fst n) \<in> (set (dg_edges g))\<^sup>+ \<and> fst n \<noteq> c) (dg_nodes g)"
  by (simp add: subgraph_nodes_def set_descendants conj_commute cong: conj_cong)

lemma list_all_subgraph_nodes:
  "list_all has_attributes (dg_nodes g) \<Longrightarrow> list_all has_attributes (subgraph_nodes g ns)"
  by (simp add: subgraph_nodes_def list_all_iff)

text \<open>
  Claim C6. On a taxonomy graph, whose nodes all carry their \<^verbatim>\<open>label\<close> and \<^verbatim>\<open>type\<close>,
  \<^verbatim>\<open>get_taxonomy_vocabularies(graph, None)\<close> returns the labels of the nodes of type
  vocabulary, each as often as it occurs, sorted by their case-folded form; and for a
  category that is a node of the graph it returns, sorted in the same way, the labels of
  the vocabulary nodes that are descendants of the category: those reached from it along
  one or more edges, the category itself excluded.
\<close>

theorem vocabularies_of_category:
  assumes "list_all has_attributes (dg_nodes g)"
  shows "(\<exists>vs. get_taxonomy_vocabularies g None = Inr vs
            \<and> mset vs = mset (map node_label (filter is_vocabulary (dg_nodes g)))
            \<and> sorted (map casefold vs))
       \<and> (has_node g c \<longrightarrow>
           (\<exists>vs. get_taxonomy_vocabularies g (Some c) = Inr vs
              \<and> mset vs = mset (map node_label
                    (filter (\<lambda>n. is_vocabulary n \<and> (c, fst n) \<in> (set (dg_edges g))\<^sup>+ \<and> fst n \<noteq> c)
                       (dg_nodes g)))
              \<and> sorted (map casefold vs)))"
proof (intro conjI impI)
  show "\<exists>vs. get_taxonomy_vocabularies g None = Inr vs
            \<and> mset vs = mset (map node_label (filter is_vocabulary (dg_nodes g)))
            \<and> sorted (map casefold vs)"
    by (simp add: get_taxonomy_vocabularies_def vocabulary_labels_attributed [OF assms])
next
  assume c: "has_node g c"
  have "vocabulary_labels (subgraph_nodes g (descendants (dg_edges g) c))
      = Inr (map node_label (filter is_vocabulary (subgraph_nodes g (descendants (dg_edges g) c))))"
    by (rule vocabulary_labels_attributed) (rule list_all_subgraph_nodes [OF assms])
  with c show "\<exists>vs. get_taxonomy_vocabularies g (Some c) = Inr vs
              \<and> mset vs = mset (map node_label
                    (filter (\<lambda>n. is_vocabulary n \<and> (c, fst n) \<in> (set (dg_edges g))\<^sup>+ \<and> fst n \<noteq> c)
                       (dg_nodes g)))
              \<and> sorted (map casefold vs)"
    by (simp add: get_taxonomy_vocabularies_def filter_subgraph_nodes)
qed

text \<open>
  Claim C7. For a category identifier that is not a node of the graph,
  \<^verbatim>\<open>get_taxonomy_vocabularies\<close> returns the empty list and raises nothing.
\<close>

theorem unknown_category_gives_empty:
  "\<not> has_node g c \<Longrightarrow> get_taxonomy_vocabularies g (Some c) = Inr []"
  by (simp add: get_taxonomy_vocabularies_def)

text \<open>
  C6 at the graph of the example taxonomy: the vocabulary below the subcategory, whose
  identifier is 5.
\<close>

theorem vocabularies_of_category_witness:
  "(\<exists>vs. get_taxonomy_vocabularies ex_graph (Some 5) = Inr vs
      \<and> mset vs = mset (map node_label
            (filter (\<lambda>n. is_vocabulary n \<and> (5, fst n) \<in> (set (dg_edges ex_graph))\<^sup>+ \<and> fst n \<noteq> 5)
               (dg_nodes ex_graph)))
      \<and> sorted (map casefold vs))
   \<and> get_taxonomy_vocabularies ex_graph (Some 5) = Inr [''x'', ''zeta'']
   \<and> get_taxonomy_vocabularies ex_graph None
       = Inr [''big'', ''bleach'', ''jab'', ''needle'', ''pharma'', ''x'', ''zeta'']"
proof -
  have h: "list_all has_attributes (dg_nodes ex_graph)" by code_simp
  have n: "has_node ex_graph 5" by code_simp
  have v: "get_taxonomy_vocabularies ex_graph (Some 5) = Inr [''x'', ''zeta'']" by code_simp
  have a: "get_taxonomy_vocabularies ex_graph None
       = Inr [''big'', ''bleach'', ''jab'', ''needle'', ''pharma'', ''x'', ''zeta'']" by code_simp
  from vocabularies_of_category [OF h, of 5] n v a show ?thesis by blast
qed

text \<open>C7 at the example graph, which has no node 77.\<close>

theorem unknown_category_gives_empty_witness:
  "get_taxonomy_vocabularies ex_graph (Some 77) = Inr []"
proof -
  have h: "\<not> has_node ex_graph 77" by code_simp
  from unknown_category_gives_empty [OF h] show ?thesis .
qed


section \<open>Normalisation of the taxonomies\<close>

subsection \<open>Characters and words\<close>

lemma upper_range: "CHR ''A'' \<le> c \<and> c \<le> CHR ''Z'' \<longleftrightarrow> 65 \<le> (of_char c :: nat) \<and> (of_char c :: nat) \<le> 90"
  by (simp add: less_eq_char_def)

lemma of_char_lower_char:
  "(of_char (lower_char c) :: nat) = (if 65 \<le> (of_char c :: nat) \<and> (of_char c :: nat) \<le> 90 then of_char c + 32 else of_char c)"
  by (simp add: lower_char_def upper_range)

lemma lower_char_idem [simp]: "lower_char (lower_char c) = lower_char c"
proof -
  have "(of_char (lower_char (lower_char c)) :: nat) = of_char (lower_char c)"
    by (simp add: of_char_lower_char)
  then show ?thesis by (simp only: of_char_eq_iff)
qed

lemma isspace_of_char: "isspace c \<Longrightarrow> (of_char c :: nat) \<le> 32"
  by (auto simp: isspace_def)

lemma isspace_lower_char [simp]: "isspace (lower_char c) = isspace c"
proof (cases "65 \<le> (of_char c :: nat) \<and> (of_char c :: nat) \<le> 90")
  case True
  then have "\<not> (of_char (lower_char c) :: nat) \<le> 32" "\<not> (of_char c :: nat) \<le> 32"
    by (simp_all add: of_char_lower_char)
  then show ?thesis using isspace_of_char by blast
next
  case False
  then have "lower_char c = c" unfolding lower_char_def upper_range by auto
  then show ?thesis by simp
qed

lemma lower_idem [simp]: "lower (lower s) = lower s"
  by (simp add: lower_def)

lemma asterisk_lower: "CHR ''*'' \<notin> set (replace_asterisk s)"
  by (simp add: replace_asterisk_def)

lemma lower_replace_asterisk: "lower (replace_asterisk (lower s)) = replace_asterisk (lower s)"
  by (induction s) (simp_all add: lower_def replace_asterisk_def)

lemma split_from_no_space:
  "\<not> list_ex isspace cur \<Longrightarrow> w \<in> set (split_from cur s) \<Longrightarrow> \<not> list_ex isspace w \<and> w \<noteq> []"
  by (induction cur s rule: split_from.induct) (auto split: if_splits)

lemma split_no_space: "w \<in> set (split s) \<Longrightarrow> \<not> list_ex isspace w \<and> w \<noteq> []"
  unfolding split_def by (rule split_from_no_space) simp_all

lemma no_space_replace_lower:
  "\<not> list_ex isspace w \<Longrightarrow> \<not> list_ex isspace (replace_asterisk (lower w))"
  by (auto simp: list_ex_iff replace_asterisk_def lower_def)

lemma tidy_words_names:
  "map fst (fst (tidy_words ws n))
   = filter (\<lambda>w. w \<notin> set stopwords) (map (\<lambda>word. replace_asterisk (lower word)) ws)"
  by (induction ws n rule: tidy_words.induct) (auto simp: Let_def split: prod.splits)

lemma upt_append_upt: "n \<le> m \<Longrightarrow> m \<le> k \<Longrightarrow> [n..<m] @ [m..<k] = [n..<k]"
  by (metis le_Suc_ex upt_add_eq_append)

lemma tidy_words_uuids:
  "map snd (fst (tidy_words ws n)) = [n..<snd (tidy_words ws n)] \<and> n \<le> snd (tidy_words ws n)"
proof (induction ws n rule: tidy_words.induct)
  case (1 n)
  show ?case by simp
next
  case (2 word ws n)
  show ?case
  proof (cases "replace_asterisk (lower word) \<in> set stopwords")
    case True
    with 2 show ?thesis by (simp add: Let_def)
  next
    case False
    obtain vs n' where r: "tidy_words ws (Suc n) = (vs, n')" by (cases "tidy_words ws (Suc n)")
    from "2.IH"(2) [OF refl False] r have ih: "map snd vs = [Suc n..<n']" and le: "Suc n \<le> n'"
      by simp_all
    from le have "[n..<n'] = n # [Suc n..<n']" by (simp add: upt_conv_Cons)
    with False ih le r show ?thesis by (simp add: Let_def)
  qed
qed

lemma tidy_vocabulary_names:
  "map fst (fst (tidy_vocabulary strings n))
   = filter (\<lambda>w. w \<notin> set stopwords)
       (map (\<lambda>word. replace_asterisk (lower word)) (concat (map split strings)))"
proof (induction strings n rule: tidy_vocabulary.induct)
  case (1 n)
  show ?case by simp
next
  case (2 s ss n)
  obtain vs n1 where w: "tidy_words (split s) n = (vs, n1)" by (cases "tidy_words (split s) n")
  obtain vs' n2 where v: "tidy_vocabulary ss n1 = (vs', n2)" by (cases "tidy_vocabulary ss n1")
  from tidy_words_names [of "split s" n] w
  have a: "map fst vs = filter (\<lambda>w. w \<notin> set stopwords)
      (map (\<lambda>word. replace_asterisk (lower word)) (split s))" by simp
  from "2.IH" [OF w [symmetric] refl] v
  have b: "map fst vs' = filter (\<lambda>w. w \<notin> set stopwords)
      (map (\<lambda>word. replace_asterisk (lower word)) (concat (map split ss)))" by simp
  from a b w v show ?case by simp
qed

lemma tidy_vocabulary_uuids:
  "map snd (fst (tidy_vocabulary strings n)) = [n..<snd (tidy_vocabulary strings n)]
   \<and> n \<le> snd (tidy_vocabulary strings n)"
proof (induction strings n rule: tidy_vocabulary.induct)
  case (1 n)
  show ?case by simp
next
  case (2 s ss n)
  obtain vs n1 where w: "tidy_words (split s) n = (vs, n1)" by (cases "tidy_words (split s) n")
  obtain vs' n2 where v: "tidy_vocabulary ss n1 = (vs', n2)" by (cases "tidy_vocabulary ss n1")
  from tidy_words_uuids [of "split s" n] w have a: "map snd vs = [n..<n1]" "n \<le> n1" by simp_all
  from "2.IH" [OF w [symmetric] refl] v have b: "map snd vs' = [n1..<n2]" "n1 \<le> n2" by simp_all
  from a b w v show ?case by (simp add: upt_append_upt)
qed

lemma tidy_vocabulary_tokens:
  assumes "w \<in> set (map fst (fst (tidy_vocabulary strings n)))"
  shows "tidy_token w"
proof -
  from assms obtain word where word: "word \<in> set (concat (map split strings))"
    and w: "w = replace_asterisk (lower word)" and stop: "w \<notin> set stopwords"
    unfolding tidy_vocabulary_names by auto
  from word obtain s where "word \<in> set (split s)" by auto
  then have "\<not> list_ex isspace word" by (simp add: split_no_space)
  then have "\<not> list_ex isspace w" unfolding w by (rule no_space_replace_lower)
  with stop show ?thesis
    by (simp add: tidy_token_def w lower_replace_asterisk asterisk_lower)
qed

subsection \<open>Tokens and identifiers of a tidied taxonomy\<close>

text \<open>
  The tokens that a call returns are tidy, from the cache or not, and the call leaves a cache
  whose results have tidy tokens only.
\<close>

lemma tidy_cache_lookup:
  assumes "tidy_cache cache" and "map_of cache data = Some processed"
  shows "list_all tidy_token (map fst (vocabularies_of processed))"
proof -
  from assms(2) have "(data, processed) \<in> set cache" by (rule map_of_SomeD)
  with assms(1) have "list_all tidy_token (map fst (vocabularies_of (snd (data, processed))))"
    unfolding tidy_cache_def list_all_iff by blast
  then show ?thesis by simp
qed

lemma tidy_tokens:
  "tidy_cache (fst st) \<Longrightarrow>
     list_all tidy_token (map fst (vocabulary_of (fst (tidy_value v st))))
     \<and> tidy_cache (fst (snd (tidy_value v st)))"
  "tidy_cache (fst st) \<Longrightarrow>
     list_all tidy_token (map fst (vocabularies_of (fst (tidy_entries data st))))
     \<and> tidy_cache (fst (snd (tidy_entries data st)))"
  "tidy_cache (fst st) \<Longrightarrow>
     list_all tidy_token (map fst (vocabularies_of (fst (tidy_taxonomies data st))))
     \<and> tidy_cache (fst (snd (tidy_taxonomies data st)))"
proof (induction v st and data st and data st rule: tidy_value_tidy_entries_tidy_taxonomies.induct)
  case (1 c v s cache n)
  from "1.prems" have tc: "tidy_cache cache" by simp
  define n1 where "n1 = (case c of None \<Rightarrow> n | Some nm \<Rightarrow> Suc n)"
  define c' where "c' = (case c of None \<Rightarrow> None | Some nm \<Rightarrow> Some (lower nm, n))"
  define v' where "v' = (case v of None \<Rightarrow> None | Some strings \<Rightarrow> Some (fst (tidy_vocabulary strings n1)))"
  define n2 where "n2 = (case v of None \<Rightarrow> n1 | Some strings \<Rightarrow> snd (tidy_vocabulary strings n1))"
  define s' where "s' = (case s of None \<Rightarrow> None
      | Some subs \<Rightarrow> Some (fst (tidy_taxonomies subs (cache, n2))))"
  define st' where "st' = (case s of None \<Rightarrow> (cache, n2)
      | Some subs \<Rightarrow> snd (tidy_taxonomies subs (cache, n2)))"
  have eq: "tidy_value (RawTaxonomy c v s) (cache, n) = (Taxonomy c' v' s', st')"
    by (simp add: n1_def c'_def v'_def n2_def s'_def st'_def split: option.splits prod.splits)
  define A where "A = (case v' of None \<Rightarrow> [] | Some ws \<Rightarrow> ws)"
  define B where "B = (case s' of None \<Rightarrow> [] | Some ts \<Rightarrow> vocabularies_of ts)"
  have voc: "vocabulary_of (Taxonomy c' v' s') = A @ B" by (simp add: A_def B_def)
  have a: "list_all tidy_token (map fst A)"
  proof (cases v)
    case None
    then show ?thesis by (simp add: A_def v'_def)
  next
    case (Some strings)
    have "list_all tidy_token (map fst (fst (tidy_vocabulary strings n1)))"
      unfolding list_all_iff using tidy_vocabulary_tokens by blast
    with Some show ?thesis by (simp add: A_def v'_def)
  qed
  have b: "list_all tidy_token (map fst B) \<and> tidy_cache (fst st')"
  proof (cases s)
    case None
    with tc show ?thesis by (simp add: B_def s'_def st'_def)
  next
    case (Some subs)
    have "list_all tidy_token (map fst (vocabularies_of (fst (tidy_taxonomies subs (cache, n2)))))
        \<and> tidy_cache (fst (snd (tidy_taxonomies subs (cache, n2))))"
      by (rule "1.IH" [where x = "(c', n1)" and xb = "(v', n2)", OF _ refl _ refl Some])
        (simp_all add: n1_def c'_def v'_def n2_def tc split: option.splits prod.splits)
    with Some show ?thesis by (simp add: B_def s'_def st'_def)
  qed
  from a b show ?case unfolding eq fst_conv snd_conv voc by simp
next
  case (2 st)
  then show ?case by simp
next
  case (3 "value" data st)
  obtain t st1 where t: "tidy_value value st = (t, st1)" by (cases "tidy_value value st")
  obtain ts st2 where ts: "tidy_entries data st1 = (ts, st2)" by (cases "tidy_entries data st1")
  from "3.IH"(1) [OF "3.prems"] t
  have a: "list_all tidy_token (map fst (vocabulary_of t))" "tidy_cache (fst st1)" by simp_all
  from "3.IH"(2) [OF t [symmetric] refl a(2)] ts
  have b: "list_all tidy_token (map fst (vocabularies_of ts))" "tidy_cache (fst st2)" by simp_all
  from a b t ts show ?case by simp
next
  case (4 data cache n)
  from "4.prems" have tc: "tidy_cache cache" by simp
  show ?case
  proof (cases "map_of cache data")
    case (Some processed)
    with tc tidy_cache_lookup [OF tc Some] show ?thesis by simp
  next
    case None
    obtain processed cache' n' where r: "tidy_entries data (cache, n) = (processed, (cache', n'))"
      by (cases "tidy_entries data (cache, n)") auto
    from "4.IH" [OF None] tc r
    have "list_all tidy_token (map fst (vocabularies_of processed))" "tidy_cache cache'"
      by simp_all
    with None r show ?thesis by (simp add: tidy_cache_def)
  qed
qed

text \<open>
  Claim C8. Whatever tidy cache a call starts from, every vocabulary token of the tidied
  taxonomy is lower case, has no asterisk, is not one of the stop words \<^verbatim>\<open>and\<close>, \<^verbatim>\<open>&\<close>,
  \<^verbatim>\<open>or\<close> and has no white space in it, and the cache is tidy again after the call. The
  tokens of a vocabulary are the words of its phrases, in order, lowered and stripped of
  asterisks, the stop words left out, each word of a phrase being non-empty and without
  white space, and they get the successive fresh values of the generator as identifiers.
  The identifiers of a taxonomy are not all different, though. In \<open>dup_raw\<close> the second
  category has the same list of subcategories as the first, so the decorated function
  returns the stored result: the subcategory and its term get no identifier of their own
  but the identifiers 1 and 2 that they have under the first category. And a word that is
  made of asterisks leaves the empty token.
\<close>

theorem tidy_taxonomies_normalises:
  "(tidy_cache cache \<longrightarrow>
      (\<forall>w\<in>set (map fst (vocabularies_of (fst (tidy_taxonomies data (cache, n))))).
         lower w = w \<and> CHR ''*'' \<notin> set w \<and> w \<notin> set stopwords \<and> \<not> list_ex isspace w)
      \<and> tidy_cache (fst (snd (tidy_taxonomies data (cache, n)))))
   \<and> map fst (fst (tidy_vocabulary strings n))
       = filter (\<lambda>w. w \<notin> set stopwords)
           (map (\<lambda>word. replace_asterisk (lower word)) (concat (map split strings)))
   \<and> (\<forall>word\<in>set (split s). word \<noteq> [] \<and> \<not> list_ex isspace word)
   \<and> map snd (fst (tidy_vocabulary strings n)) = [n..<snd (tidy_vocabulary strings n)]
   \<and> uuids_of_all (fst (tidy_taxonomies dup_raw ([], 0))) = [0, 1, 2, 3, 1, 2]
   \<and> \<not> distinct (uuids_of_all (fst (tidy_taxonomies dup_raw ([], 0))))
   \<and> fst (tidy_vocabulary [''jab *''] 0) = [(''jab'', 0), ('''', 1)]"
proof (intro conjI impI)
  assume "tidy_cache cache"
  then have tc: "tidy_cache (fst (cache, n))" by simp
  from tidy_tokens(3) [OF tc, of data]
  show "\<forall>w\<in>set (map fst (vocabularies_of (fst (tidy_taxonomies data (cache, n))))).
      lower w = w \<and> CHR ''*'' \<notin> set w \<and> w \<notin> set stopwords \<and> \<not> list_ex isspace w"
    unfolding list_all_iff tidy_token_def by blast
  from tidy_tokens(3) [OF tc, of data]
  show "tidy_cache (fst (snd (tidy_taxonomies data (cache, n))))" by blast
next
  show "map fst (fst (tidy_vocabulary strings n))
       = filter (\<lambda>w. w \<notin> set stopwords)
           (map (\<lambda>word. replace_asterisk (lower word)) (concat (map split strings)))"
    by (rule tidy_vocabulary_names)
  show "\<forall>word\<in>set (split s). word \<noteq> [] \<and> \<not> list_ex isspace word"
    using split_no_space by blast
  show "map snd (fst (tidy_vocabulary strings n)) = [n..<snd (tidy_vocabulary strings n)]"
    using tidy_vocabulary_uuids [of strings n] by simp
  show u: "uuids_of_all (fst (tidy_taxonomies dup_raw ([], 0))) = [0, 1, 2, 3, 1, 2]"
    by code_simp
  show "\<not> distinct (uuids_of_all (fst (tidy_taxonomies dup_raw ([], 0))))"
    unfolding u by simp
  show "fst (tidy_vocabulary [''jab *''] 0) = [(''jab'', 0), ('''', 1)]"
    by code_simp
qed

text \<open>
  C8 at the example taxonomy, from the empty cache: the phrase \<^verbatim>\<open>jab* and  needle\<close> gives
  the tokens \<^verbatim>\<open>jab\<close> and \<^verbatim>\<open>needle\<close>, and its ten categories and tokens, no list of
  subcategories occurring twice, get the identifiers 0 to 9.
\<close>

theorem tidy_taxonomies_normalises_witness:
  "map fst (vocabularies_of (fst (tidy_taxonomies ex_raw ([], 0))))
     = [''big'', ''pharma'', ''jab'', ''needle'', ''x'', ''zeta'', ''bleach'']
   \<and> lower ''jab'' = ''jab'' \<and> CHR ''*'' \<notin> set ''jab'' \<and> ''jab'' \<notin> set stopwords
   \<and> uuids_of_all (fst (tidy_taxonomies ex_raw ([], 0))) = [0..<10]
   \<and> uuids_of_all (fst (tidy_taxonomies dup_raw ([], 0))) = [0, 1, 2, 3, 1, 2]"
proof -
  have a: "map fst (vocabularies_of (fst (tidy_taxonomies ex_raw ([], 0))))
     = [''big'', ''pharma'', ''jab'', ''needle'', ''x'', ''zeta'', ''bleach'']" by code_simp
  then have m: "''jab'' \<in> set (map fst (vocabularies_of (fst (tidy_taxonomies ex_raw ([], 0)))))"
    by simp
  have u: "uuids_of_all (fst (tidy_taxonomies ex_raw ([], 0))) = [0..<10]" by code_simp
  have c: "tidy_cache []" by (simp add: tidy_cache_def)
  have d: "uuids_of_all (fst (tidy_taxonomies dup_raw ([], 0))) = [0, 1, 2, 3, 1, 2]" by code_simp
  from tidy_taxonomies_normalises [of "[]" ex_raw 0] c m
  have "lower ''jab'' = ''jab'' \<and> CHR ''*'' \<notin> set ''jab'' \<and> ''jab'' \<notin> set stopwords"
    by blast
  with a u d show ?thesis by blast
qed


section \<open>Entries without a category\<close>

text \<open>
  Claim C4. \<^verbatim>\<open>tidy_taxonomies\<close> keeps an entry whatever keys it has, but
  \<^verbatim>\<open>get_nx_taxonomies_graph\<close> raises \<^verbatim>\<open>KeyError\<close> on an entry that has no category and
  has a word in its vocabulary, or has subcategories: the edge to the word, and the parent
  of the subcategories, are read from \<^verbatim>\<open>value['category']['uuid']\<close> outside the test
  for the key.
\<close>

theorem entry_without_category_raises:
  "get_nx_taxonomies_graph (Taxonomy None (Some (word # ws)) s # data) g parent = Inl KeyError
   \<and> get_nx_taxonomies_graph (Taxonomy None None (Some subs) # data) g parent = Inl KeyError
   \<and> get_nx_taxonomies_graph (Taxonomy None (Some []) (Some subs) # data) g parent = Inl KeyError
   \<and> fst (tidy_taxonomies [RawTaxonomy None None (Some [])] ([], n)) = [Taxonomy None None (Some [])]
   \<and> snd (snd (tidy_taxonomies [RawTaxonomy None None (Some [])] ([], n))) = n"
  by (simp add: Let_def)

text \<open>
  C4 on the taxonomy \<^verbatim>\<open>[{'vocabulary': ['term']}]\<close>: it is tidied, and the graph of the
  result is not built.
\<close>

theorem entry_without_category_raises_witness:
  "fst (tidy_taxonomies [RawTaxonomy None (Some [''term'']) None] ([], 0))
     = [Taxonomy None (Some [(''term'', 0)]) None]
   \<and> get_nx_taxonomies_graph (fst (tidy_taxonomies [RawTaxonomy None (Some [''term'']) None] ([], 0)))
        empty_digraph None = Inl KeyError"
proof -
  have t: "fst (tidy_taxonomies [RawTaxonomy None (Some [''term'']) None] ([], 0))
     = [Taxonomy None (Some [(''term'', 0)]) None]" by code_simp
  from entry_without_category_raises [of "(''term'', 0)" "[]" None "[]" empty_digraph None]
  show ?thesis unfolding t by simp
qed

section \<open>Loading a list of tables\<close>

lemma map_of_names:
  "map_of (map (\<lambda>x. (x, PyOther)) xs) k = (if k \<in> set xs then Some PyOther else None)"
  by (induction xs) simp_all

lemma file_unbound: "''file'' \<notin> set module_globals" "''file'' \<notin> set builtins"
  by (simp_all add: module_globals_def builtins_def)

lemma pd_bound: "''pd'' \<in> set module_globals"
  by (simp add: module_globals_def)

lemma lookup_file:
  "lookup_name ([(''path'', p)] # [(''filepath'', f), (''compression'', c)] # outer_scopes) ''file''
     = Inl NameError"
  by (simp add: outer_scopes_def map_of_names file_unbound)

lemma lookup_pd:
  "lookup_name ([(''path'', p)] # [(''filepath'', f), (''compression'', c)] # outer_scopes) ''pd''
     = Inr PyOther"
  by (simp add: outer_scopes_def map_of_names pd_bound)

text \<open>A dictionary of paths is loaded, each row indexed by the key of its file.\<close>

lemma dict_loads:
  "load_dataframe ex_files (PyDict [(''all'', ''a.csv''), (''cures'', ''b.csv'')]) ''infer''
     = Inr (Some [(Label ''all'', [(''date'', ''2020-04-13''), (''word'', ''truth''), (''count'', ''3'')]),
                  (Label ''cures'', [(''date'', ''2020-04-13''), (''word'', ''truth''), (''count'', ''3'')])])"
  by code_simp

text \<open>
  Claim C9. \<^verbatim>\<open>load_dataframe\<close> called with a non-empty list of paths raises
  \<^verbatim>\<open>NameError\<close>: the comprehension reads \<^verbatim>\<open>file\<close>, which is bound neither by the
  comprehension (that binds \<^verbatim>\<open>path\<close>), nor by the function, nor at module level, nor in
  the builtins. With the empty list \<^verbatim>\<open>pd.concat\<close> raises, so no list is ever loaded.
\<close>

theorem list_of_paths_raises:
  "(paths \<noteq> [] \<longrightarrow> load_dataframe fs (PyList paths) compression = Inl NameError)
   \<and> (\<exists>e. load_dataframe fs (PyList paths) compression = Inl e)"
proof (cases paths)
  case Nil
  then show ?thesis by (simp add: load_dataframe_def pd_concat_def)
next
  case (Cons path rest)
  have "read_each fs ([(''filepath'', PyList paths), (''compression'', PyStr compression)] # outer_scopes)
          (path # rest) = Inl NameError"
    by (simp add: Let_def lookup_file lookup_pd del: lookup_name.simps)
  with Cons show ?thesis by (simp add: load_dataframe_def)
qed

text \<open>C9 with two paths whose files exist; the first path, given as a string, is loaded.\<close>

theorem list_of_paths_raises_witness:
  "load_dataframe ex_files (PyList [''data/ALL/bigrams.csv.gz'', ''data/CURES/bigrams.csv.gz'']) ''infer''
     = Inl NameError
   \<and> load_dataframe ex_files (PyStr ''data/ALL/bigrams.csv.gz'') ''infer''
     = Inr (Some [(Position 0, [(''date'', ''2020-04-13''), (''word'', ''truth''), (''count'', ''3'')])])"
proof -
  have s: "load_dataframe ex_files (PyStr ''data/ALL/bigrams.csv.gz'') ''infer''
     = Inr (Some [(Position 0, [(''date'', ''2020-04-13''), (''word'', ''truth''), (''count'', ''3'')])])"
    by code_simp
  from list_of_paths_raises [of "[''data/ALL/bigrams.csv.gz'', ''data/CURES/bigrams.csv.gz'']" ex_files "''infer''"] s
  show ?thesis by simp
qed


section \<open>The date range check\<close>

lemma date_check_stops:
  "data_range_end s < data_range_start s \<Longrightarrow> date_check s = [Error date_error, Stop]"
  by (simp add: date_check_def)

lemma dashboard_stopped:
  assumes "data_range_end s < data_range_start s"
  shows "dashboard s = page_setup s @ sidebar s @ content_head s @ [Error date_error, Stop]"
proof -
  have a: "Stop \<notin> set (page_setup s)" by (simp add: page_setup_def)
  have b: "Stop \<notin> set (sidebar s)" by (simp add: sidebar_def)
  have c: "data_selection s = []" using assms by (simp add: data_selection_def)
  have d: "Stop \<notin> set (content_head s)" by (simp add: content_head_def)
  have e: "date_check s = [Error date_error, Stop]" using assms by (rule date_check_stops)
  show ?thesis
    unfolding dashboard_def
    using a b d by (simp add: c e Let_def)
qed

lemma about_stopped:
  assumes "data_range_end r < data_range_start r"
  shows "about_the_data r = about_setup r @ about_sidebar r @ about_head r @ [Error date_error, Stop]"
proof -
  have a: "Stop \<notin> set (about_setup r)" by (simp add: about_setup_def)
  have b: "Stop \<notin> set (about_sidebar r)" by (simp add: about_sidebar_def)
  have c: "about_selection r = []" using assms by (simp add: about_selection_def)
  have d: "Stop \<notin> set (about_head r)" by (simp add: about_head_def)
  have e: "date_check r = [Error date_error, Stop]" using assms by (rule date_check_stops)
  show ?thesis
    unfolding about_the_data_def
    using a b d by (simp add: c e Let_def)
qed

lemma no_chart_before_check:
  "\<not> list_ex is_chart (page_setup s @ sidebar s @ content_head s @ [Error date_error, Stop])"
  "\<not> list_ex is_chart (about_setup r @ about_sidebar r @ about_head r @ [Error date_error, Stop])"
  by (simp_all add: is_chart_def page_setup_def sidebar_def content_head_def
      about_setup_def about_sidebar_def about_head_def)

text \<open>
  Claim C5. When the start date is after the end date, the run of \<^verbatim>\<open>Dashboard.py\<close>, and
  the run of \<^verbatim>\<open>pages/About_the_data.py\<close>, consists of the set-up, the side bar and the head
  of the page followed by the error message and \<^verbatim>\<open>st.stop()\<close>: the message is shown, and
  nothing is selected from the data, no chart is computed and no chart, table or metric is
  displayed.
\<close>

theorem date_range_error_short_circuits:
  "(data_range_end s < data_range_start s \<longrightarrow>
      dashboard s = page_setup s @ sidebar s @ content_head s @ [Error date_error, Stop]
      \<and> Error date_error \<in> set (dashboard s)
      \<and> \<not> list_ex is_chart (dashboard s))
   \<and> (data_range_end r < data_range_start r \<longrightarrow>
      about_the_data r = about_setup r @ about_sidebar r @ about_head r @ [Error date_error, Stop]
      \<and> Error date_error \<in> set (about_the_data r)
      \<and> \<not> list_ex is_chart (about_the_data r))"
proof (intro conjI impI)
  assume h: "data_range_end s < data_range_start s"
  show d: "dashboard s = page_setup s @ sidebar s @ content_head s @ [Error date_error, Stop]"
    using h by (rule dashboard_stopped)
  show "Error date_error \<in> set (dashboard s)" unfolding d by simp
  show "\<not> list_ex is_chart (dashboard s)" unfolding d by (rule no_chart_before_check)
next
  assume h: "data_range_end r < data_range_start r"
  show d: "about_the_data r = about_setup r @ about_sidebar r @ about_head r @ [Error date_error, Stop]"
    using h by (rule about_stopped)
  show "Error date_error \<in> set (about_the_data r)" unfolding d by simp
  show "\<not> list_ex is_chart (about_the_data r)" unfolding d by (rule no_chart_before_check)
qed

text \<open>
  C5 at the example settings, with the start date 1 June 2021 and the end date 13 April 2020;
  with the two dates exchanged the charts are there.
\<close>

theorem date_range_error_short_circuits_witness:
  "Error date_error \<in> set (dashboard (ex_settings 737942 737528))
   \<and> \<not> list_ex is_chart (dashboard (ex_settings 737942 737528))
   \<and> list_ex is_chart (dashboard (ex_settings 737528 737942))
   \<and> Error date_error \<in> set (about_the_data \<lparr>data_range_start = 737942, data_range_end = 737528\<rparr>)
   \<and> \<not> list_ex is_chart (about_the_data \<lparr>data_range_start = 737942, data_range_end = 737528\<rparr>)
   \<and> list_ex is_chart (about_the_data \<lparr>data_range_start = 737528, data_range_end = 737942\<rparr>)"
proof -
  have h: "data_range_end (ex_settings 737942 737528) < data_range_start (ex_settings 737942 737528)"
    by (simp add: ex_settings_def)
  have k: "data_range_end \<lparr>data_range_start = 737942, data_range_end = 737528\<rparr>
      < data_range_start \<lparr>data_range_start = 737942 :: int, data_range_end = 737528\<rparr>"
    by simp
  have a: "list_ex is_chart (dashboard (ex_settings 737528 737942))" by code_simp
  have b: "list_ex is_chart (about_the_data \<lparr>data_range_start = 737528, data_range_end = 737942\<rparr>)"
    by code_simp
  from date_range_error_short_circuits
    [of "ex_settings 737942 737528" "\<lparr>data_range_start = 737942, data_range_end = 737528\<rparr>"]
    h k a b
  show ?thesis by blast
qed

end
